theory Spec2Isabelle
  imports Complex_Main
begin

section \<open>Data model of the shape path engine (new\_shape.js)\<close>

text \<open>
  JavaScript numbers are modelled as real numbers: every value is finite and arithmetic is
  exact. A command tuple \<open>[letter, n1, n2, ...]\<close> is a pair of its letter and the list of
  its numbers; element \<open>0\<close> of the JavaScript array is the letter, element \<open>k + 1\<close> is
  number \<open>k\<close> of the list. A cell is a list of tuples, a polygon set a list of cells.
\<close>

type_synonym tuple = "string \<times> real list"
type_synonym cell = "tuple list"
type_synonym polygons = "cell list"

text \<open>Reading a JavaScript array out of range gives \<open>undefined\<close>, here \<open>None\<close>.\<close>

definition elt :: "'a list \<Rightarrow> nat \<Rightarrow> 'a option" where
  "elt xs k = (if k < length xs then Some (xs ! k) else None)"

text \<open>\<open>cell[j][1]\<close> and \<open>cell[j][2]\<close>: the endpoint of tuple \<open>j\<close>, when it is there.\<close>

definition coord :: "cell \<Rightarrow> nat \<Rightarrow> nat \<Rightarrow> real option" where
  "coord c j d = (case elt c j of None \<Rightarrow> None | Some t \<Rightarrow> elt (snd t) (d - 1))"

section \<open>Path codec: writePaths\<close>

text \<open>
  Source: the tables \<open>iC\<close> and \<open>iQS\<close> (lines 334 and 335) and \<open>writePaths\<close> (lines 337 to 368).
\<close>

definition iC :: "nat list" where
  "iC = [0, 3, 4, 5, 6, 1, 2]"

definition iQS :: "nat list" where
  "iQS = [0, 3, 4, 1, 2]"

text \<open>The index \<open>realK\<close> that the inner loop of \<open>writePaths\<close> reads for position \<open>k\<close>.\<close>

definition realK :: "string \<Rightarrow> nat \<Rightarrow> nat option" where
  "realK w k =
     (if w = ''Q'' \<or> w = ''S'' then elt iQS k
      else if w = ''C'' then elt iC k
      else Some k)"

text \<open>
  \<open>str += polygons[i][j][realK]\<close>: the letter at index 0, a number (written by the
  runtime's number-to-string conversion \<open>num2str\<close>, a parameter) at an index inside the
  tuple, and the text \<open>undefined\<close> otherwise.
\<close>

definition elemStr :: "(real \<Rightarrow> string) \<Rightarrow> tuple \<Rightarrow> nat option \<Rightarrow> string" where
  "elemStr num2str t r =
     (case r of
        None \<Rightarrow> ''undefined''
      | Some 0 \<Rightarrow> fst t
      | Some (Suc k) \<Rightarrow> (case elt (snd t) k of None \<Rightarrow> ''undefined'' | Some v \<Rightarrow> num2str v))"

definition writeTuple :: "(real \<Rightarrow> string) \<Rightarrow> tuple \<Rightarrow> string" where
  "writeTuple num2str t =
     (let w = fst t; nK = Suc (length (snd t)) in
      if w = ''Z'' then ''Z''
      else concat (map (\<lambda>k. elemStr num2str t (realK w k) @
                              (if 0 < k \<and> k < nK - 1 then '','' else ''''))
                       [0..<nK]))"

definition writePaths :: "(real \<Rightarrow> string) \<Rightarrow> polygons \<Rightarrow> string" where
  "writePaths num2str polygons =
     (if length polygons = 0 then ''M0,0Z''
      else concat (map (\<lambda>c. concat (map (writeTuple num2str) c)) polygons))"

section \<open>Shape classifier\<close>

text \<open>
  Source: \<open>almostEq\<close> (lines 522 to 524), \<open>dist\<close> (lines 526 to 533),
  \<open>pointsShapeRectangle\<close> (lines 551 to 577), \<open>pointsShapeEllipse\<close> (lines 579 to 597) and the
  constants of lines 25 to 30.
\<close>

text \<open>
  A number read from a tuple may be missing (\<open>undefined\<close>), and arithmetic on it gives NaN.
  Such a value is \<open>None\<close>: \<open>nsub\<close>, \<open>almostEq\<close> and \<open>dist\<close> (here \<open>dist_pts\<close>) work on possibly missing
  numbers, and every comparison with NaN is false.
\<close>

definition nsub :: "real option \<Rightarrow> real option \<Rightarrow> real option" where
  "nsub a b = (case (a, b) of (Some x, Some y) \<Rightarrow> Some (x - y) | _ \<Rightarrow> None)"

definition almostEq :: "real option \<Rightarrow> real option \<Rightarrow> bool" where
  "almostEq a b = (case (a, b) of (Some x, Some y) \<Rightarrow> \<bar>x - y\<bar> \<le> 1 / 10 ^ 6 | _ \<Rightarrow> False)"

definition dist_pts :: "tuple \<Rightarrow> tuple \<Rightarrow> real option" where
  "dist_pts a b =
     (case (nsub (elt (snd b) 0) (elt (snd a) 0), nsub (elt (snd b) 1) (elt (snd a) 1)) of
        (Some dx, Some dy) \<Rightarrow> Some (sqrt (dx * dx + dy * dy))
      | _ \<Rightarrow> None)"

text \<open>One round of the loop \<open>for(var j = 1; j < 3; j++)\<close> of \<open>pointsShapeRectangle\<close>.\<close>

definition rectAxis :: "cell \<Rightarrow> nat \<Rightarrow> bool" where
  "rectAxis c j =
     (let e01 = nsub (coord c 0 j) (coord c 1 j);
          e32 = nsub (coord c 3 j) (coord c 2 j) in
      if \<not> almostEq e01 e32 then False
      else
        let e03 = nsub (coord c 0 j) (coord c 3 j);
            e12 = nsub (coord c 1 j) (coord c 2 j) in
        almostEq e03 e12)"

definition pointsShapeRectangle :: "cell \<Rightarrow> bool" where
  "pointsShapeRectangle c =
     (if length c \<noteq> 5 then False
      else if \<not> rectAxis c 1 then False
      else if \<not> rectAxis c 2 then False
      else if \<not> almostEq (coord c 0 1) (coord c 1 1) \<and> \<not> almostEq (coord c 0 1) (coord c 3 1)
        then False
      else (case (dist_pts (c ! 0) (c ! 1), dist_pts (c ! 0) (c ! 3)) of
              (Some d1, Some d2) \<Rightarrow> d1 * d2 \<noteq> 0
            | _ \<Rightarrow> False))"

definition CIRCLE_SIDES :: nat where
  "CIRCLE_SIDES = 32"

definition i000 :: nat where "i000 = 0"
definition i045 :: nat where "i045 = CIRCLE_SIDES div 8"
definition i090 :: nat where "i090 = CIRCLE_SIDES div 4"
definition i180 :: nat where "i180 = CIRCLE_SIDES div 2"
definition i270 :: nat where "i270 = CIRCLE_SIDES div 4 * 3"

text \<open>The test of one index \<open>i\<close> in the loop of \<open>pointsShapeEllipse\<close>, with \<open>len = CIRCLE_SIDES\<close>.\<close>

definition ellipseDiag :: "cell \<Rightarrow> nat \<Rightarrow> bool" where
  "ellipseDiag c i =
     (let len = CIRCLE_SIDES;
          k = (len * 2 - i) mod len;
          k2 = (len div 2 + k) mod len;
          i2 = (len div 2 + i) mod len in
      almostEq (dist_pts (c ! i) (c ! i2)) (dist_pts (c ! k) (c ! k2)))"

function ellipseLoop :: "cell \<Rightarrow> nat \<Rightarrow> bool" where
  "ellipseLoop c i =
     (if i < CIRCLE_SIDES then (if \<not> ellipseDiag c i then False else ellipseLoop c (Suc i))
      else True)"
  by pat_completeness auto
termination
  by (relation "measure (\<lambda>(c, i). CIRCLE_SIDES - i)") auto

declare ellipseLoop.simps [simp del]

definition pointsShapeEllipse :: "cell \<Rightarrow> bool" where
  "pointsShapeEllipse c =
     (if length c \<noteq> CIRCLE_SIDES + 1 then False else ellipseLoop c 0)"

section \<open>Coordinate mapper and path decoder: readPaths\<close>

text \<open>
  Source: \<open>readPaths\<close> (lines 370 to 520): the \<open>switch\<close> on the command letter (lines 398
  to 474) and the transform and push of the new tuples (lines 476 to 516).
\<close>

text \<open>
  A TypeError is the only exception the modelled code can raise (a property read or a
  method call on \<open>undefined\<close>). Where JavaScript would go on computing with NaN because a
  command lacks an argument, the model, whose numbers are reals, stops with \<open>NotModelled\<close>.
\<close>

datatype error = TypeError | NotModelled

text \<open>
  \<open>gd._fullLayout._size\<close>, an axis (its \<open>_id\<close>, its \<open>_offset\<close> and whether it has the
  \<open>p2r\<close> capability), a sub-plot domain (\<open>domain.x\<close> and \<open>domain.y\<close>, two numbers each) and
  \<open>plotinfo\<close>. The helper \<open>p2r(axis, v)\<close> of \<open>./helpers\<close> is a parameter.
\<close>

record plotsize =
  size_l :: real
  size_t :: real
  size_w :: real
  size_h :: real

record axis =
  ax_id :: string
  ax_offset :: real
  ax_p2r :: bool

record pdomain =
  dom_x :: "real \<times> real"
  dom_y :: "real \<times> real"

record plotinfo =
  pi_xaxis :: "axis option"
  pi_yaxis :: "axis option"
  pi_domain :: "pdomain option"

text \<open>The paper-space branches of the transform (the \<open>else\<close> branches of lines 494 and 503).\<close>

definition paperX :: "plotsize \<Rightarrow> plotinfo \<Rightarrow> bool option \<Rightarrow> real \<Rightarrow> real" where
  "paperX sz pinfo isActiveShape x =
     (let x1 = (if isActiveShape = Some False then x - size_l sz else x) in
      case pi_domain pinfo of
        Some d \<Rightarrow> fst (dom_x d) + x1 / size_w sz
      | None \<Rightarrow> x1 / size_w sz)"

definition paperY :: "plotsize \<Rightarrow> plotinfo \<Rightarrow> bool option \<Rightarrow> real \<Rightarrow> real" where
  "paperY sz pinfo isActiveShape y =
     (let y1 = (if isActiveShape = Some False then y - size_t sz else y) in
      case pi_domain pinfo of
        Some d \<Rightarrow> snd (dom_y d) - y1 / size_h sz
      | None \<Rightarrow> 1 - y1 / size_h sz)"

definition toDataX ::
  "(axis \<Rightarrow> real \<Rightarrow> real) \<Rightarrow> plotsize \<Rightarrow> plotinfo option \<Rightarrow> bool option \<Rightarrow> real \<Rightarrow> real" where
  "toDataX p2r sz plotinfo isActiveShape x =
     (case plotinfo of
        None \<Rightarrow> x
      | Some pinfo \<Rightarrow>
          (case pi_xaxis pinfo of
             Some ax \<Rightarrow>
               if ax_p2r ax
               then p2r ax (if isActiveShape = Some False then x - ax_offset ax else x)
               else paperX sz pinfo isActiveShape x
           | None \<Rightarrow> paperX sz pinfo isActiveShape x))"

definition toDataY ::
  "(axis \<Rightarrow> real \<Rightarrow> real) \<Rightarrow> plotsize \<Rightarrow> plotinfo option \<Rightarrow> bool option \<Rightarrow> real \<Rightarrow> real" where
  "toDataY p2r sz plotinfo isActiveShape y =
     (case plotinfo of
        None \<Rightarrow> y
      | Some pinfo \<Rightarrow>
          (case pi_yaxis pinfo of
             Some ax \<Rightarrow>
               if ax_p2r ax
               then p2r ax (if isActiveShape = Some False then y - ax_offset ax else y)
               else paperY sz pinfo isActiveShape y
           | None \<Rightarrow> paperY sz pinfo isActiveShape y))"

text \<open>
  The loop \<open>for(k = 0; k + 2 < 7; k += 2)\<close> over the pairs of one tuple: at most three
  pairs, and a pair with a missing member is left as it is (\<open>continue\<close>).
\<close>

fun mapCoords :: "(real \<Rightarrow> real) \<Rightarrow> (real \<Rightarrow> real) \<Rightarrow> nat \<Rightarrow> real list \<Rightarrow> real list" where
  "mapCoords fx fy 0 as = as"
| "mapCoords fx fy (Suc n) (a # b # as) = fx a # fy b # mapCoords fx fy n as"
| "mapCoords fx fy (Suc n) as = as"

definition mapTuple ::
  "(axis \<Rightarrow> real \<Rightarrow> real) \<Rightarrow> plotsize \<Rightarrow> plotinfo option \<Rightarrow> bool option \<Rightarrow> tuple \<Rightarrow> tuple" where
  "mapTuple p2r sz plotinfo isActiveShape t =
     (fst t, mapCoords (toDataX p2r sz plotinfo isActiveShape)
                       (toDataY p2r sz plotinfo isActiveShape) 3 (snd t))"

text \<open>
  The state of the decoding loop: the cells so far (\<open>n\<close> is the index of the last one, \<open>-1\<close>
  when there is none), the current point and the start of the sub-path.
\<close>

record rstate =
  polys :: polygons
  curX :: real
  curY :: real
  initX :: real
  initY :: real

definition rstate0 :: rstate where
  "rstate0 = \<lparr>polys = [], curX = 0, curY = 0, initX = 0, initY = 0\<rparr>"

text \<open>
  A parsed command \<open>cmd[i]\<close>: its letter \<open>cmd[i][0]\<close> and its numeric arguments
  \<open>cmd[i][1], cmd[i][2], ...\<close>. The \<open>switch\<close> of \<open>readPaths\<close>: the new state and \<open>newPos\<close>.
  For an arc, \<open>!+cmd[i][4]\<close> holds when the fourth argument is zero or missing.
\<close>

type_synonym cmd = "string \<times> real list"

definition arcPoints :: "real \<Rightarrow> real \<Rightarrow> real \<Rightarrow> real \<Rightarrow> tuple list" where
  "arcPoints cenX cenY rx ry =
     map (\<lambda>k. (''L'', [cenX + rx * cos (2 * pi * real k / real CIRCLE_SIDES),
                        cenY + ry * sin (2 * pi * real k / real CIRCLE_SIDES)]))
         [1..<Suc (CIRCLE_SIDES div 2)]"

definition cmdNewPos :: "rstate \<Rightarrow> cmd \<Rightarrow> error + (rstate \<times> tuple list)" where
  "cmdNewPos st c =
     (let w = fst c; a = snd c in
      if w = ''M'' then
        (case a of
           a1 # a2 # _ \<Rightarrow>
             Inr (st\<lparr>polys := polys st @ [[]], curX := a1, curY := a2, initX := a1, initY := a2\<rparr>,
                  [(w, [a1, a2])])
         | _ \<Rightarrow> Inl NotModelled)
      else if w = ''Q'' \<or> w = ''S'' then
        (case a of
           x1 # y1 # x # y # _ \<Rightarrow> Inr (st\<lparr>curX := x, curY := y\<rparr>, [(w, [x, y, x1, y1])])
         | _ \<Rightarrow> Inl NotModelled)
      else if w = ''C'' then
        (case a of
           x1 # y1 # x2 # y2 # x # y # _ \<Rightarrow>
             Inr (st\<lparr>curX := x, curY := y\<rparr>, [(w, [x, y, x1, y1, x2, y2])])
         | _ \<Rightarrow> Inl NotModelled)
      else if w = ''T'' \<or> w = ''L'' then
        (case a of
           a1 # a2 # _ \<Rightarrow> Inr (st\<lparr>curX := a1, curY := a2\<rparr>, [(w, [a1, a2])])
         | _ \<Rightarrow> Inl NotModelled)
      else if w = ''H'' then
        (case a of
           a1 # _ \<Rightarrow> Inr (st\<lparr>curX := a1\<rparr>, [(''L'', [a1, curY st])])
         | _ \<Rightarrow> Inl NotModelled)
      else if w = ''V'' then
        (case a of
           a1 # _ \<Rightarrow> Inr (st\<lparr>curY := a1\<rparr>, [(''L'', [curX st, a1])])
         | _ \<Rightarrow> Inl NotModelled)
      else if w = ''A'' then
        (case a of
           rx0 # ry0 # r \<Rightarrow>
             (let flip = (case elt r 1 of None \<Rightarrow> True | Some a4 \<Rightarrow> a4 = 0);
                  rx = (if flip then - rx0 else rx0);
                  ry = (if flip then - ry0 else ry0);
                  cenX = curX st - rx;
                  cenY = curY st in
              Inr (st, arcPoints cenX cenY rx ry))
         | _ \<Rightarrow> Inl NotModelled)
      else if w = ''Z'' then
        (if curX st \<noteq> initX st \<or> curY st \<noteq> initY st
         then Inr (st\<lparr>curX := initX st, curY := initY st\<rparr>, [(w, [initX st, initY st])])
         else Inr (st, []))
      else Inr (st, []))"

text \<open>
  The loop over \<open>newPos\<close>: the end point of the tuple becomes the current point, its pairs
  are transformed, and the tuple is pushed onto the last cell; \<open>polys[n]\<close> is \<open>undefined\<close>
  when no cell was opened, and the \<open>push\<close> raises.
\<close>

fun pushTuples ::
  "(axis \<Rightarrow> real \<Rightarrow> real) \<Rightarrow> plotsize \<Rightarrow> plotinfo option \<Rightarrow> bool option \<Rightarrow>
   rstate \<Rightarrow> tuple list \<Rightarrow> error + rstate" where
  "pushTuples p2r sz plotinfo isActiveShape st [] = Inr st"
| "pushTuples p2r sz plotinfo isActiveShape st (t # ts) =
     (let st1 = (case snd t of a # b # _ \<Rightarrow> st\<lparr>curX := a, curY := b\<rparr> | _ \<Rightarrow> st) in
      if polys st1 = [] then Inl TypeError
      else pushTuples p2r sz plotinfo isActiveShape
             (st1\<lparr>polys := butlast (polys st1) @
                              [last (polys st1) @ [mapTuple p2r sz plotinfo isActiveShape t]]\<rparr>)
             ts)"

definition readCmd ::
  "(axis \<Rightarrow> real \<Rightarrow> real) \<Rightarrow> plotsize \<Rightarrow> plotinfo option \<Rightarrow> bool option \<Rightarrow>
   rstate \<Rightarrow> cmd \<Rightarrow> error + rstate" where
  "readCmd p2r sz plotinfo isActiveShape st c =
     (case cmdNewPos st c of
        Inl e \<Rightarrow> Inl e
      | Inr (st1, newPos) \<Rightarrow> pushTuples p2r sz plotinfo isActiveShape st1 newPos)"

fun readCmds ::
  "(axis \<Rightarrow> real \<Rightarrow> real) \<Rightarrow> plotsize \<Rightarrow> plotinfo option \<Rightarrow> bool option \<Rightarrow>
   rstate \<Rightarrow> cmd list \<Rightarrow> error + rstate" where
  "readCmds p2r sz plotinfo isActiveShape st [] = Inr st"
| "readCmds p2r sz plotinfo isActiveShape st (c # cs) =
     (case readCmd p2r sz plotinfo isActiveShape st c of
        Inl e \<Rightarrow> Inl e
      | Inr st1 \<Rightarrow> readCmds p2r sz plotinfo isActiveShape st1 cs)"

text \<open>
  \<open>readPaths(str, gd, plotinfo, isActiveShape)\<close>; the tokenizer \<open>parseSvgPath\<close> (the
  package parse-svg-path) is a parameter, and of \<open>gd\<close> only \<open>gd._fullLayout._size\<close> is read.
\<close>

definition readPaths ::
  "(string \<Rightarrow> cmd list) \<Rightarrow> (axis \<Rightarrow> real \<Rightarrow> real) \<Rightarrow>
   string \<Rightarrow> plotsize \<Rightarrow> plotinfo option \<Rightarrow> bool option \<Rightarrow> error + polygons" where
  "readPaths parseSvgPath p2r str sz plotinfo isActiveShape =
     (case readCmds p2r sz plotinfo isActiveShape rstate0 (parseSvgPath str) of
        Inl e \<Rightarrow> Inl e
      | Inr st \<Rightarrow> Inr (polys st))"

text \<open>Before any cell is opened the current point is still the start of the sub-path.\<close>

definition start_inv :: "rstate \<Rightarrow> bool" where
  "start_inv st = (if polys st = [] then curX st = initX st \<and> curY st = initY st else True)"

section \<open>Outline controller: deleting a vertex\<close>

text \<open>
  Source: \<open>removeVertex\<close> (lines 160 to 172) and \<open>clickVertexController\<close> (lines 174 to 183).
\<close>



section \<open>Ellipse constructor\<close>

text \<open>
  Source: \<open>handleEllipse\<close> (lines 599 to 627), \<open>ellipseOver\<close> (lines 629 to 654) and the
  constants of lines 31 to 33.
\<close>

text \<open>Arithmetic on numbers that may be NaN (\<open>None\<close>).\<close>

definition nadd :: "real option \<Rightarrow> real option \<Rightarrow> real option" where
  "nadd a b = (case (a, b) of (Some x, Some y) \<Rightarrow> Some (x + y) | _ \<Rightarrow> None)"

definition nmul :: "real option \<Rightarrow> real option \<Rightarrow> real option" where
  "nmul a b = (case (a, b) of (Some x, Some y) \<Rightarrow> Some (x * y) | _ \<Rightarrow> None)"

definition ndiv :: "real option \<Rightarrow> real option \<Rightarrow> real option" where
  "ndiv a b = (case (a, b) of (Some x, Some y) \<Rightarrow> Some (x / y) | _ \<Rightarrow> None)"

definition cos45 :: real where "cos45 = cos (pi / 4)"
definition sin45 :: real where "sin45 = sin (pi / 4)"
definition SQRT2 :: real where "SQRT2 = sqrt 2"

record pos =
  pos_x0 :: "real option"
  pos_y0 :: "real option"
  pos_x1 :: "real option"
  pos_y1 :: "real option"

definition ellipseOver :: "pos \<Rightarrow> pos" where
  "ellipseOver p =
     (let x0 = pos_x0 p; y0 = pos_y0 p; x1 = pos_x1 p; y1 = pos_y1 p;
          dx = nsub x1 x0;
          dy = nsub y1 y0;
          x0 = nsub x0 dx;
          y0 = nsub y0 dy;
          cx = ndiv (nadd x0 x1) (Some 2);
          cy = ndiv (nadd y0 y1) (Some 2);
          scale = SQRT2;
          dx = nmul dx (Some scale);
          dy = nmul dy (Some scale) in
      \<lparr>pos_x0 = nsub cx dx, pos_y0 = nsub cy dy, pos_x1 = nadd cx dx, pos_y1 = nadd cy dy\<rparr>)"

text \<open>\<open>!rx\<close>: true for zero and for NaN.\<close>

definition falsy :: "real option \<Rightarrow> bool" where
  "falsy a = (case a of None \<Rightarrow> True | Some x \<Rightarrow> x = 0)"

text \<open>
  \<open>handleEllipse(isEllipse, start, end)\<close>: \<open>start\<close> and \<open>end\<close> are points \<open>[x, y]\<close>, and so
  are the entries of the result.
\<close>

definition handleEllipse ::
  "bool \<Rightarrow> real \<times> real \<Rightarrow> real \<times> real \<Rightarrow> (real option \<times> real option) list" where
  "handleEllipse isEllipse start end' =
     (if \<not> isEllipse then [(Some (fst start), Some (snd start)), (Some (fst end'), Some (snd end'))]
      else
        let p = ellipseOver \<lparr>pos_x0 = Some (fst start), pos_y0 = Some (snd start),
                              pos_x1 = Some (fst end'), pos_y1 = Some (snd end')\<rparr>;
            cx = ndiv (nadd (pos_x1 p) (pos_x0 p)) (Some 2);
            cy = ndiv (nadd (pos_y1 p) (pos_y0 p)) (Some 2);
            rx = ndiv (nsub (pos_x1 p) (pos_x0 p)) (Some 2);
            ry = ndiv (nsub (pos_y1 p) (pos_y0 p)) (Some 2);
            ry = (if falsy rx then ndiv ry (Some SQRT2) else ry);
            rx = (if falsy rx then ry else rx);
            rx = (if falsy ry then ndiv rx (Some SQRT2) else rx);
            ry = (if falsy ry then rx else ry) in
        map (\<lambda>i. (nadd cx (nmul rx (Some (cos (real i * 2 * pi / real CIRCLE_SIDES)))),
                   nadd cy (nmul ry (Some (sin (real i * 2 * pi / real CIRCLE_SIDES))))))
            [0..<CIRCLE_SIDES])"

section \<open>Shape synthesizer: addNewShapes\<close>

text \<open>
  Source: \<open>addNewShapes\<close> (lines 656 to 831) and \<open>hasChanged\<close> (lines 833 to 841).
\<close>

text \<open>
  JavaScript values held in shape objects. An object is the list of its properties in
  insertion order; reading a missing property gives \<open>undefined\<close>, assigning to an existing
  one replaces its value in place.
\<close>

datatype jsval = Undefined | NaN | Num real | Str string | Bool bool | Obj "(string \<times> jsval) list"

type_synonym obj = "(string \<times> jsval) list"

definition getProp :: "obj \<Rightarrow> string \<Rightarrow> jsval" where
  "getProp ob k = (case map_of ob k of None \<Rightarrow> Undefined | Some v \<Rightarrow> v)"

fun setProp :: "string \<Rightarrow> jsval \<Rightarrow> obj \<Rightarrow> obj" where
  "setProp k v [] = [(k, v)]"
| "setProp k v (p # ps) = (if fst p = k then (k, v) # ps else p # setProp k v ps)"

text \<open>A number read from a tuple, and the result of arithmetic, as values.\<close>

definition jsRead :: "real option \<Rightarrow> jsval" where
  "jsRead a = (case a of None \<Rightarrow> Undefined | Some x \<Rightarrow> Num x)"

definition jsNum :: "real option \<Rightarrow> jsval" where
  "jsNum a = (case a of None \<Rightarrow> NaN | Some x \<Rightarrow> Num x)"

text \<open>\<open>a !== b\<close> on primitive values: NaN differs from everything, itself included.\<close>

definition strictNeq :: "jsval \<Rightarrow> jsval \<Rightarrow> bool" where
  "strictNeq a b = (a = NaN \<or> b = NaN \<or> a \<noteq> b)"

text \<open>The operator \<open>+\<close> of \<open>afterEdit.path += newShapes[k].path\<close>.\<close>

definition toStr :: "(real \<Rightarrow> string) \<Rightarrow> jsval \<Rightarrow> string" where
  "toStr num2str v =
     (case v of
        Undefined \<Rightarrow> ''undefined''
      | NaN \<Rightarrow> ''NaN''
      | Num x \<Rightarrow> num2str x
      | Str s \<Rightarrow> s
      | Bool b \<Rightarrow> (if b then ''true'' else ''false'')
      | Obj _ \<Rightarrow> ''[object Object]'')"

definition toNum :: "jsval \<Rightarrow> real option" where
  "toNum v = (case v of Num x \<Rightarrow> Some x | Bool b \<Rightarrow> Some (if b then 1 else 0) | _ \<Rightarrow> None)"

definition jsPlus :: "(real \<Rightarrow> string) \<Rightarrow> jsval \<Rightarrow> jsval \<Rightarrow> jsval" where
  "jsPlus num2str a b =
     (if (case a of Str _ \<Rightarrow> True | Obj _ \<Rightarrow> True | _ \<Rightarrow> False) \<or>
         (case b of Str _ \<Rightarrow> True | Obj _ \<Rightarrow> True | _ \<Rightarrow> False)
      then Str (toStr num2str a @ toStr num2str b)
      else jsNum (nadd (toNum a) (toNum b)))"

text \<open>
  An entry of \<open>gd._fullLayout.shapes\<close>: its own properties (\<open>type\<close>, \<open>x0\<close>, ..., \<open>path\<close>)
  and its \<open>_input\<close> object. \<open>gd._fullLayout.newshape\<close> is the drawing style. Of \<open>gd\<close> the
  model keeps \<open>_fullLayout._size\<close>, \<open>newshape\<close>, \<open>shapes\<close> and \<open>_activeShapeIndex\<close>;
  of \<open>dragOptions\<close> it keeps \<open>gd\<close>, \<open>plotinfo\<close>, \<open>isActiveShape\<close> and \<open>dragmode\<close>.
\<close>

record fshape =
  fs_props :: obj
  fs_input :: obj

record newshape =
  ns_layer :: jsval
  ns_opacity :: jsval
  ns_line_color :: jsval
  ns_line_width :: jsval
  ns_line_dash :: jsval
  ns_fillcolor :: jsval
  ns_fillrule :: jsval

record gd =
  gd_size :: plotsize
  gd_newshape :: newshape
  gd_shapes :: "fshape list"
  gd_activeShapeIndex :: int

record dragOptions =
  do_gd :: gd
  do_plotinfo :: "plotinfo option"
  do_isActiveShape :: "bool option"
  do_dragmode :: string

text \<open>
  \<open>cell[j][d]\<close> as the synthesizer reads it: a TypeError when tuple \<open>j\<close> is missing,
  \<open>undefined\<close> (\<open>None\<close>) when the tuple is there and the number is not.
\<close>

definition cellNum :: "cell \<Rightarrow> nat \<Rightarrow> nat \<Rightarrow> error + real option" where
  "cellNum c j d = (case elt c j of None \<Rightarrow> Inl TypeError | Some t \<Rightarrow> Inr (elt (snd t) (d - 1)))"

text \<open>
  Lines 748 to 767: the corners of a circle shape from the cell, from the four cardinal
  samples when \<open>isActiveShape === false\<close> and from the centre and the sample at 45 degrees
  otherwise.
\<close>

definition circlePos :: "bool option \<Rightarrow> cell \<Rightarrow> error + pos" where
  "circlePos isActiveShape c =
     (if isActiveShape = Some False then
        (case (elt c i090, elt c i270, elt c i000, elt c i180) of
           (Some c090, Some c270, Some c000, Some c180) \<Rightarrow>
             (let x = (\<lambda>t. elt (snd t) 0); y = (\<lambda>t. elt (snd t) 1);
                  x0 = ndiv (nadd (x c090) (x c270)) (Some 2);
                  y0 = ndiv (nadd (y c000) (y c180)) (Some 2);
                  rx = ndiv (nsub (nadd (nsub (x c270) (x c090)) (x c180)) (x c000)) (Some 2);
                  ry = ndiv (nsub (nadd (nsub (y c270) (y c090)) (y c180)) (y c000)) (Some 2) in
              Inr (ellipseOver \<lparr>pos_x0 = x0, pos_y0 = y0,
                                 pos_x1 = nadd x0 (nmul rx (Some cos45)),
                                 pos_y1 = nadd y0 (nmul ry (Some sin45))\<rparr>))
         | _ \<Rightarrow> Inl TypeError)
      else
        (case (elt c i000, elt c i180, elt c i045) of
           (Some c000, Some c180, Some c045) \<Rightarrow>
             (let x = (\<lambda>t. elt (snd t) 0); y = (\<lambda>t. elt (snd t) 1) in
              Inr (ellipseOver \<lparr>pos_x0 = ndiv (nadd (x c000) (x c180)) (Some 2),
                                 pos_y0 = ndiv (nadd (y c000) (y c180)) (Some 2),
                                 pos_x1 = x c045,
                                 pos_y1 = y c045\<rparr>))
         | _ \<Rightarrow> Inl TypeError))"

text \<open>
  \<open>onPaper\<close>, and the reference of an axis: \<open>xaxis._id\<close> is read only when \<open>onPaper\<close> is
  false, and then both axes are there.
\<close>

definition onPaper :: "plotinfo \<Rightarrow> bool" where
  "onPaper pinfo = (pi_domain pinfo \<noteq> None \<or> \<not> (pi_xaxis pinfo \<noteq> None \<and> pi_yaxis pinfo \<noteq> None))"

definition axisRef :: "plotinfo \<Rightarrow> axis option \<Rightarrow> jsval" where
  "axisRef pinfo ax =
     (if onPaper pinfo then Str ''paper''
      else case ax of Some a \<Rightarrow> Str (ax_id a) | None \<Rightarrow> Undefined)"

text \<open>The body of the loop over the cells (lines 706 to 776) for a cell that is not skipped.\<close>

definition cellShape ::
  "(real \<Rightarrow> string) \<Rightarrow> newshape \<Rightarrow> plotinfo \<Rightarrow> bool option \<Rightarrow> string \<Rightarrow> bool \<Rightarrow> cell \<Rightarrow>
   error + obj" where
  "cellShape num2str drwStyle pinfo isActiveShape dragmode isOpenMode c =
     (let shape = [(''editable'', Bool True),
                   (''xref'', axisRef pinfo (pi_xaxis pinfo)),
                   (''yref'', axisRef pinfo (pi_yaxis pinfo)),
                   (''layer'', ns_layer drwStyle),
                   (''opacity'', ns_opacity drwStyle),
                   (''line'', Obj [(''color'', ns_line_color drwStyle),
                                   (''width'', ns_line_width drwStyle),
                                   (''dash'', ns_line_dash drwStyle)])];
          shape = (if \<not> isOpenMode
                   then setProp ''fillrule'' (ns_fillrule drwStyle)
                          (setProp ''fillcolor'' (ns_fillcolor drwStyle) shape)
                   else shape) in
      if dragmode = ''drawrect'' \<and> pointsShapeRectangle c then
        (case (cellNum c 0 1, cellNum c 0 2, cellNum c 2 1, cellNum c 2 2) of
           (Inr x0, Inr y0, Inr x1, Inr y1) \<Rightarrow>
             Inr (setProp ''y1'' (jsRead y1) (setProp ''x1'' (jsRead x1)
                   (setProp ''y0'' (jsRead y0) (setProp ''x0'' (jsRead x0)
                     (setProp ''type'' (Str ''rect'') shape)))))
         | _ \<Rightarrow> Inl TypeError)
      else if dragmode = ''drawline'' then
        (case (cellNum c 0 1, cellNum c 0 2, cellNum c 1 1, cellNum c 1 2) of
           (Inr x0, Inr y0, Inr x1, Inr y1) \<Rightarrow>
             Inr (setProp ''y1'' (jsRead y1) (setProp ''x1'' (jsRead x1)
                   (setProp ''y0'' (jsRead y0) (setProp ''x0'' (jsRead x0)
                     (setProp ''type'' (Str ''line'') shape)))))
         | _ \<Rightarrow> Inl TypeError)
      else if dragmode = ''drawcircle'' \<and> (isActiveShape = Some False \<or> pointsShapeEllipse c) then
        (case circlePos isActiveShape c of
           Inl e \<Rightarrow> Inl e
         | Inr p \<Rightarrow>
             Inr (setProp ''y1'' (jsNum (pos_y1 p)) (setProp ''x1'' (jsNum (pos_x1 p))
                   (setProp ''y0'' (jsNum (pos_y0 p)) (setProp ''x0'' (jsNum (pos_x0 p))
                     (setProp ''type'' (Str ''circle'') shape))))))
      else
        Inr (setProp ''path'' (Str (writePaths num2str [c]))
              (setProp ''type'' (Str ''path'') shape)))"

text \<open>The loop over the decoded cells: a cell of fewer than two tuples is skipped.\<close>

fun newShapesOf ::
  "(real \<Rightarrow> string) \<Rightarrow> newshape \<Rightarrow> plotinfo \<Rightarrow> bool option \<Rightarrow> string \<Rightarrow> bool \<Rightarrow> polygons \<Rightarrow>
   error + obj list" where
  "newShapesOf num2str drwStyle pinfo isActiveShape dragmode isOpenMode [] = Inr []"
| "newShapesOf num2str drwStyle pinfo isActiveShape dragmode isOpenMode (c # cs) =
     (if length c < 2 then newShapesOf num2str drwStyle pinfo isActiveShape dragmode isOpenMode cs
      else
        case cellShape num2str drwStyle pinfo isActiveShape dragmode isOpenMode c of
          Inl e \<Rightarrow> Inl e
        | Inr shape \<Rightarrow>
            (case newShapesOf num2str drwStyle pinfo isActiveShape dragmode isOpenMode cs of
               Inl e \<Rightarrow> Inl e
             | Inr shapes \<Rightarrow> Inr (shape # shapes)))"

text \<open>Lines 672 to 695: the drawing mode forced by the type of the active shape.\<close>

definition activeDragmode :: "gd \<Rightarrow> bool option \<Rightarrow> string \<Rightarrow> error + string" where
  "activeDragmode g isActiveShape dragmode =
     (if isActiveShape \<noteq> None then
        (let ident = gd_activeShapeIndex g in
         if ident < int (length (gd_shapes g)) then
           (if ident < 0 then Inl TypeError
            else
              let props = fs_props (gd_shapes g ! nat ident);
                  ty = getProp props ''type'' in
              if ty = Str ''rect'' then Inr ''drawrect''
              else if ty = Str ''circle'' then Inr ''drawcircle''
              else if ty = Str ''line'' then Inr ''drawline''
              else if ty = Str ''path'' then
                (let path = (case getProp props ''path'' of
                               Str s \<Rightarrow> s
                             | _ \<Rightarrow> '''') in
                 if path \<noteq> [] \<and> last path = CHR ''Z'' then Inr ''drawclosedpath''
                 else Inr ''drawopenpath'')
              else Inr dragmode)
         else Inr dragmode)
      else Inr dragmode)"

fun hasChanged :: "obj \<Rightarrow> obj \<Rightarrow> string list \<Rightarrow> bool" where
  "hasChanged beforeEdit afterEdit [] = False"
| "hasChanged beforeEdit afterEdit (k # keys) =
     (if strictNeq (getProp beforeEdit k) (getProp afterEdit k) then True
      else hasChanged beforeEdit afterEdit keys)"

text \<open>\<open>for(var k = 1; k < newShapes.length; k++) afterEdit.path += newShapes[k].path\<close>.\<close>

fun addPaths :: "(real \<Rightarrow> string) \<Rightarrow> obj \<Rightarrow> obj list \<Rightarrow> obj" where
  "addPaths num2str afterEdit [] = afterEdit"
| "addPaths num2str afterEdit (s # ss) =
     addPaths num2str
       (setProp ''path'' (jsPlus num2str (getProp afterEdit ''path'') (getProp s ''path'')) afterEdit)
       ss"

text \<open>
  Lines 795 to 821, for the entry \<open>q\<close> that is the active shape: the flag
  \<open>updatedActiveShape\<close> and the entry \<open>shapes[q]\<close>, which starts as \<open>beforeEdit._input\<close>.
  \<open>newShapes\<close> is \<open>first # others\<close>.
\<close>

definition editActive :: "(real \<Rightarrow> string) \<Rightarrow> fshape \<Rightarrow> obj \<Rightarrow> obj list \<Rightarrow> bool \<times> obj" where
  "editActive num2str beforeEdit first others =
     (let ty = getProp (fs_props beforeEdit) ''type'';
          afterEdit = (if ty = Str ''path'' then addPaths num2str first others else first);
          entry = fs_input beforeEdit in
      if ty = Str ''line'' \<or> ty = Str ''rect'' \<or> ty = Str ''circle'' then
        (let updatedActiveShape =
               hasChanged (fs_props beforeEdit) afterEdit [''x0'', ''x1'', ''y0'', ''y1''] in
         (updatedActiveShape,
          if updatedActiveShape
          then setProp ''y1'' (getProp afterEdit ''y1'') (setProp ''y0'' (getProp afterEdit ''y0'')
                 (setProp ''x1'' (getProp afterEdit ''x1'') (setProp ''x0'' (getProp afterEdit ''x0'')
                   entry)))
          else entry))
      else if ty = Str ''path'' then
        (let updatedActiveShape = hasChanged (fs_props beforeEdit) afterEdit [''path''] in
         (updatedActiveShape,
          if updatedActiveShape then setProp ''path'' (getProp afterEdit ''path'') entry
          else entry))
      else (False, entry))"

text \<open>Lines 783 to 830: the returned list, \<open>undefined\<close> (\<open>None\<close>) when no shape was made.\<close>

definition reconcile :: "(real \<Rightarrow> string) \<Rightarrow> gd \<Rightarrow> bool option \<Rightarrow> obj list \<Rightarrow> obj list option" where
  "reconcile num2str g isActiveShape newShapes =
     (case newShapes of
        [] \<Rightarrow> None
      | first # others \<Rightarrow>
          (let shapes =
                 map (\<lambda>q. let beforeEdit = gd_shapes g ! q in
                           if isActiveShape \<noteq> None \<and> int q = gd_activeShapeIndex g
                           then snd (editActive num2str beforeEdit first others)
                           else fs_input beforeEdit)
                     [0..<length (gd_shapes g)] in
           Some (if isActiveShape = None then shapes @ newShapes else shapes)))"

text \<open>
  \<open>addNewShapes(outlines, dragOptions)\<close>. \<open>outlines\<close> is the \<open>d\<close> attribute of
  \<open>outlines[0][0]\<close>, \<open>None\<close> when there is no such element. The helper \<open>openMode\<close> of
  the drag element helpers is a parameter, as are the tokenizer, \<open>p2r\<close> and the number
  formatting. \<open>clearSelect(gd)\<close> is not part of the model.
\<close>

definition addNewShapes ::
  "(string \<Rightarrow> cmd list) \<Rightarrow> (axis \<Rightarrow> real \<Rightarrow> real) \<Rightarrow> (real \<Rightarrow> string) \<Rightarrow> (string \<Rightarrow> bool) \<Rightarrow>
   string option \<Rightarrow> dragOptions \<Rightarrow> error + obj list option" where
  "addNewShapes parseSvgPath p2r num2str openMode outlines dragOpts =
     (case outlines of
        None \<Rightarrow> Inr None
      | Some d \<Rightarrow>
          (let g = do_gd dragOpts;
               drwStyle = gd_newshape g in
           case do_plotinfo dragOpts of
             None \<Rightarrow> Inl TypeError
           | Some pinfo \<Rightarrow>
               (let isActiveShape = do_isActiveShape dragOpts in
                case activeDragmode g isActiveShape (do_dragmode dragOpts) of
                  Inl e \<Rightarrow> Inl e
                | Inr dragmode \<Rightarrow>
                    (let isOpenMode = openMode dragmode in
                     case readPaths parseSvgPath p2r d (gd_size g) (Some pinfo) isActiveShape of
                       Inl e \<Rightarrow> Inl e
                     | Inr polygons \<Rightarrow>
                         (case newShapesOf num2str drwStyle pinfo isActiveShape dragmode
                                 isOpenMode polygons of
                            Inl e \<Rightarrow> Inl e
                          | Inr newShapes \<Rightarrow> Inr (reconcile num2str g isActiveShape newShapes))))))"

section \<open>Written path text and decoded cells\<close>

text \<open>
  Definitions for the statement and the proof of the round trip of the codec; none of them
  is a function of the source.
\<close>

text \<open>
  The text of a command list in path syntax, as the tokenizer reads it: each letter
  followed by its numbers, with commas between the numbers.
\<close>

fun commaJoin :: "string list \<Rightarrow> string" where
  "commaJoin [] = ''''"
| "commaJoin [s] = s"
| "commaJoin (s # t # ss) = s @ '','' @ commaJoin (t # ss)"

definition pathText :: "(real \<Rightarrow> string) \<Rightarrow> cmd list \<Rightarrow> string" where
  "pathText num2str cs = concat (map (\<lambda>c. fst c @ commaJoin (map num2str (snd c))) cs)"

text \<open>
  The command that \<open>writePaths\<close> writes for a tuple: a bare \<open>Z\<close>, the control points
  before the end point for \<open>Q\<close>, \<open>S\<close> and \<open>C\<close>, and the tuple as it is otherwise.
\<close>

definition tupleCmd :: "tuple \<Rightarrow> cmd" where
  "tupleCmd t =
     (let w = fst t; a = snd t in
      if w = ''Z'' then (w, [])
      else if w = ''Q'' \<or> w = ''S'' then (w, [a ! 2, a ! 3, a ! 0, a ! 1])
      else if w = ''C'' then (w, [a ! 2, a ! 3, a ! 4, a ! 5, a ! 0, a ! 1])
      else (w, a))"

definition pathCmds :: "polygons \<Rightarrow> cmd list" where
  "pathCmds ps = concat (map (map tupleCmd) ps)"

text \<open>
  The cells that \<open>readPaths\<close> builds when it applies no coordinate transform: a cell is a
  move-to tuple followed by \<open>L\<close>, \<open>T\<close>, \<open>Q\<close>, \<open>S\<close>, \<open>C\<close> tuples of 2, 2, 4, 4 and 6 numbers and
  by closing tuples, each of which holds the start of the cell and follows a point other
  than the start. \<open>validRest ix iy x y ts\<close> checks the tuples \<open>ts\<close> that follow the point
  \<open>(x, y)\<close> in a cell started at \<open>(ix, iy)\<close>, and \<open>restEnd\<close> is the point they end at.
\<close>

fun validRest :: "real \<Rightarrow> real \<Rightarrow> real \<Rightarrow> real \<Rightarrow> tuple list \<Rightarrow> bool" where
  "validRest ix iy x y [] = True"
| "validRest ix iy x y (t # ts) =
     (let w = fst t; a = snd t in
      if w = ''Z'' then a = [ix, iy] \<and> (x \<noteq> ix \<or> y \<noteq> iy) \<and> validRest ix iy ix iy ts
      else if w = ''L'' \<or> w = ''T'' then length a = 2 \<and> validRest ix iy (a ! 0) (a ! 1) ts
      else if w = ''Q'' \<or> w = ''S'' then length a = 4 \<and> validRest ix iy (a ! 0) (a ! 1) ts
      else if w = ''C'' then length a = 6 \<and> validRest ix iy (a ! 0) (a ! 1) ts
      else False)"

fun restEnd :: "real \<Rightarrow> real \<Rightarrow> real \<Rightarrow> real \<Rightarrow> tuple list \<Rightarrow> real \<times> real" where
  "restEnd ix iy x y [] = (x, y)"
| "restEnd ix iy x y (t # ts) =
     (if fst t = ''Z'' then restEnd ix iy ix iy ts
      else restEnd ix iy (snd t ! 0) (snd t ! 1) ts)"

definition validCell :: "cell \<Rightarrow> bool" where
  "validCell c =
     (case c of
        (w, [ix, iy]) # ts \<Rightarrow> w = ''M'' \<and> validRest ix iy ix iy ts
      | _ \<Rightarrow> False)"

text \<open>The decoder's state agrees with the cells it has built.\<close>

definition decodedInv :: "rstate \<Rightarrow> bool" where
  "decodedInv st =
     (if polys st = [] then curX st = initX st \<and> curY st = initY st
      else
        list_all validCell (polys st) \<and>
        (case last (polys st) of
           (w, [ix, iy]) # ts \<Rightarrow>
             initX st = ix \<and> initY st = iy \<and> restEnd ix iy ix iy ts = (curX st, curY st)
         | _ \<Rightarrow> False))"

text \<open>A tuple with the number of coordinates that its letter calls for.\<close>

definition tupleShape :: "tuple \<Rightarrow> bool" where
  "tupleShape t =
     (let w = fst t; n = length (snd t) in
      if w = ''Z'' then True
      else if w = ''Q'' \<or> w = ''S'' then n = 4
      else if w = ''C'' then n = 6
      else n = 2)"

section \<open>Concrete inputs\<close>

text \<open>
  Cells for the classifier: a quadrilateral whose left and right sides lean by \<open>1e-7\<close>, so
  that no two adjacent corners have the same x-coordinate; the square with corners
  \<open>(0,0), (0,10), (10,10), (10,0)\<close> and its closing tuple; and a closed cell of 33 tuples,
  sixteen points at \<open>(1,0)\<close>, sixteen at \<open>(-1,0)\<close> and the closing point.
\<close>

definition skewQuad :: cell where
  "skewQuad = [(''M'', [0, 0]), (''L'', [1 / 10 ^ 7, 1]), (''L'', [1 + 1 / 10 ^ 7, 1]),
               (''L'', [1, 0]), (''Z'', [0, 0])]"

definition square10 :: cell where
  "square10 = [(''M'', [0, 0]), (''L'', [0, 10]), (''L'', [10, 10]), (''L'', [10, 0]),
               (''Z'', [0, 0])]"



text \<open>
  The closed cell of the ellipse drawn from \<open>(0,0)\<close> to \<open>(1,1)\<close>: the 32 points of
  \<open>handleEllipse\<close> as one move-to and 31 line-to tuples, and the closing tuple.
\<close>

definition circleCell :: cell where
  "circleCell =
     map (\<lambda>i. (if i = 0 then ''M'' else ''L'',
                [sqrt 2 * cos (real i * 2 * pi / 32), sqrt 2 * sin (real i * 2 * pi / 32)]))
         [0..<32] @
     [(''Z'', [sqrt 2, 0])]"

text \<open>
  Command lists, plot sizes (2 by 2 pixels without margins; 400 by 200 pixels with margins
  10 and 20), a paper-referenced \<open>plotinfo\<close> without axes and domain, and one with the
  domain \<open>[0.5,1] x [0,0.5]\<close>.
\<close>

definition pathOpen :: "cmd list" where
  "pathOpen = [(''M'', [0, 0]), (''L'', [1, 1])]"

definition pathBack :: "cmd list" where
  "pathBack = [(''M'', [0, 0]), (''L'', [1, 1]), (''L'', [0, 0])]"

definition size0 :: plotsize where
  "size0 = \<lparr>size_l = 0, size_t = 0, size_w = 2, size_h = 2\<rparr>"

definition size1 :: plotsize where
  "size1 = \<lparr>size_l = 10, size_t = 20, size_w = 400, size_h = 200\<rparr>"

definition paperPlain :: plotinfo where
  "paperPlain = \<lparr>pi_xaxis = None, pi_yaxis = None, pi_domain = None\<rparr>"

definition paperDomain :: plotinfo where
  "paperDomain = \<lparr>pi_xaxis = None, pi_yaxis = None,
                   pi_domain = Some \<lparr>dom_x = (1 / 2, 1), dom_y = (0, 1 / 2)\<rparr>\<rparr>"

text \<open>
  The number formatting on the digits \<open>0\<close> to \<open>4\<close> and the tokenizer on the four path
  strings used in the examples of the codec.
\<close>

definition digitStr :: "real \<Rightarrow> string" where
  "digitStr x =
     (if x = 0 then ''0'' else if x = 1 then ''1'' else if x = 2 then ''2''
      else if x = 3 then ''3'' else if x = 4 then ''4'' else ''?'')"

definition tokensOf :: "string \<Rightarrow> cmd list" where
  "tokensOf s =
     (if s = ''M4,2'' then [(''M'', [4, 2])]
      else if s = ''M2,0'' then [(''M'', [2, 0])]
      else if s = ''M0,0Z'' then [(''M'', [0, 0]), (''Z'', [])]
      else if s = ''M0,0Q1,2,3,4Z'' then [(''M'', [0, 0]), (''Q'', [1, 2, 3, 4]), (''Z'', [])]
      else [])"

text \<open>
  A drawing style, and the shape record of the segment from \<open>(0,0)\<close> to \<open>(1,1)\<close>.
\<close>

definition style0 :: newshape where
  "style0 = \<lparr>ns_layer = Str ''above'', ns_opacity = Num 1, ns_line_color = Str ''#444'',
              ns_line_width = Num 4, ns_line_dash = Str ''solid'',
              ns_fillcolor = Str ''rgba(0,0,0,0)'', ns_fillrule = Str ''evenodd''\<rparr>"

definition segmentShape :: obj where
  "segmentShape =
     [(''editable'', Bool True), (''xref'', Str ''paper''), (''yref'', Str ''paper''),
      (''layer'', Str ''above''), (''opacity'', Num 1),
      (''line'', Obj [(''color'', Str ''#444''), (''width'', Num 4), (''dash'', Str ''solid'')]),
      (''type'', Str ''line''), (''x0'', Num 0), (''y0'', Num 0), (''x1'', Num 1), (''y1'', Num 1)]"

text \<open>
  A rectangle of the layout with its input object, the layout holding it as active shape,
  the record synthesized from the unchanged outline, and one whose \<open>x1\<close> drifted by
  \<open>1e-9\<close>.
\<close>

definition rectBefore :: fshape where
  "rectBefore =
     \<lparr>fs_props = [(''type'', Str ''rect''), (''x0'', Num 1), (''x1'', Num 3), (''y0'', Num 2),
                  (''y1'', Num 4)],
      fs_input = [(''type'', Str ''rect''), (''x0'', Num 1), (''y0'', Num 2), (''x1'', Num 3),
                  (''y1'', Num 4), (''name'', Str ''box'')]\<rparr>"

definition gdRect :: gd where
  "gdRect = \<lparr>gd_size = size0, gd_newshape = style0, gd_shapes = [rectBefore],
             gd_activeShapeIndex = 0\<rparr>"

definition rectSame :: obj where
  "rectSame = [(''type'', Str ''rect''), (''x0'', Num 1), (''y0'', Num 2), (''x1'', Num 3),
               (''y1'', Num 4)]"

definition rectDrift :: obj where
  "rectDrift = [(''type'', Str ''rect''), (''x0'', Num 1), (''y0'', Num 2),
                (''x1'', Num (3 + 1 / 10 ^ 9)), (''y1'', Num 4)]"

section \<open>Properties\<close>

subsection \<open>Encoding the empty polygon set\<close>

text \<open>
  C9. Encoding the empty polygon set (zero cells) returns the placeholder path
  \<open>M0,0Z\<close>, whatever the number formatting is; the result is not the empty string and
  no step of the function can fail.
\<close>

theorem writePaths_empty:
  "writePaths num2str [] = ''M0,0Z'' \<and> writePaths num2str [] \<noteq> ''''"
  by (simp add: writePaths_def)

subsection \<open>Rectangle and ellipse classification\<close>

lemma almostEq_Some: "almostEq (Some a) (Some b) \<longleftrightarrow> \<bar>a - b\<bar> \<le> 1 / 10 ^ 6"
  by (simp add: almostEq_def)

lemma almostEq_None: "almostEq None b = False" "almostEq a None = False"
  by (simp_all add: almostEq_def split: option.splits)

lemma nsub_Some: "nsub (Some a) (Some b) = Some (a - b)"
  by (simp add: nsub_def)

lemma nsub_None: "nsub None b = None" "nsub a None = None"
  by (simp_all add: nsub_def split: option.splits)

lemma coord_nth:
  "j < length c \<Longrightarrow> 0 < d \<Longrightarrow> coord c j d = elt (snd (c ! j)) (d - 1)"
  by (simp add: coord_def elt_def)

lemma rectAxis_iff:
  "rectAxis c j \<longleftrightarrow>
     (\<exists>a0 a1 a2 a3. coord c 0 j = Some a0 \<and> coord c 1 j = Some a1 \<and>
        coord c 2 j = Some a2 \<and> coord c 3 j = Some a3 \<and>
        \<bar>(a0 - a1) - (a3 - a2)\<bar> \<le> 1 / 10 ^ 6 \<and> \<bar>(a0 - a3) - (a1 - a2)\<bar> \<le> 1 / 10 ^ 6)"
  by (cases "coord c 0 j"; cases "coord c 1 j"; cases "coord c 2 j"; cases "coord c 3 j")
     (simp_all add: rectAxis_def Let_def almostEq_Some almostEq_None nsub_Some nsub_None)

lemma dist_pts_coord:
  "i < length c \<Longrightarrow> j < length c \<Longrightarrow>
   coord c i 1 = Some xi \<Longrightarrow> coord c i 2 = Some yi \<Longrightarrow>
   coord c j 1 = Some xj \<Longrightarrow> coord c j 2 = Some yj \<Longrightarrow>
   dist_pts (c ! i) (c ! j) = Some (sqrt ((xj - xi) * (xj - xi) + (yj - yi) * (yj - yi)))"
  by (simp add: dist_pts_def coord_nth nsub_Some)

lemma sqrt_sq_sum_zero: "sqrt (a * a + b * b) = 0 \<longleftrightarrow> a = 0 \<and> b = (0::real)"
  by (simp add: sum_squares_eq_zero_iff)

text \<open>
  C2 (as amended). \<open>pointsShapeRectangle\<close> returns true exactly when the cell has 5
  entries, its first four tuples carry coordinates, on each axis the edge from vertex 0 to
  vertex 1 equals the edge from vertex 3 to vertex 2 within \<open>1e-6\<close> and the edge from
  vertex 0 to vertex 3 equals the edge from vertex 1 to vertex 2 within \<open>1e-6\<close>, the
  x-coordinate of vertex 0 is within \<open>1e-6\<close> of that of vertex 1 or of vertex 3, and neither
  of the edges from vertex 0 (to vertex 1, to vertex 3) has length zero.
\<close>

theorem pointsShapeRectangle_iff:
  "pointsShapeRectangle c \<longleftrightarrow>
     length c = 5 \<and>
     (\<exists>x0 y0 x1 y1 x2 y2 x3 y3.
        coord c 0 1 = Some x0 \<and> coord c 0 2 = Some y0 \<and>
        coord c 1 1 = Some x1 \<and> coord c 1 2 = Some y1 \<and>
        coord c 2 1 = Some x2 \<and> coord c 2 2 = Some y2 \<and>
        coord c 3 1 = Some x3 \<and> coord c 3 2 = Some y3 \<and>
        \<bar>(x0 - x1) - (x3 - x2)\<bar> \<le> 1 / 10 ^ 6 \<and> \<bar>(x0 - x3) - (x1 - x2)\<bar> \<le> 1 / 10 ^ 6 \<and>
        \<bar>(y0 - y1) - (y3 - y2)\<bar> \<le> 1 / 10 ^ 6 \<and> \<bar>(y0 - y3) - (y1 - y2)\<bar> \<le> 1 / 10 ^ 6 \<and>
        (\<bar>x0 - x1\<bar> \<le> 1 / 10 ^ 6 \<or> \<bar>x0 - x3\<bar> \<le> 1 / 10 ^ 6) \<and>
        \<not> (x0 = x1 \<and> y0 = y1) \<and> \<not> (x0 = x3 \<and> y0 = y3))"
  (is "?L \<longleftrightarrow> ?len \<and> ?R")
proof (cases "length c = 5")
  case False
  then show ?thesis by (simp add: pointsShapeRectangle_def)
next
  case len: True
  show ?thesis
  proof
    assume L: ?L
    from L len have ax: "rectAxis c 1" "rectAxis c 2"
      by (auto simp: pointsShapeRectangle_def split: if_splits)
    from ax(1) obtain x0 x1 x2 x3 where
      x: "coord c 0 1 = Some x0" "coord c 1 1 = Some x1" "coord c 2 1 = Some x2" "coord c 3 1 = Some x3"
         "\<bar>(x0 - x1) - (x3 - x2)\<bar> \<le> 1 / 10 ^ 6" "\<bar>(x0 - x3) - (x1 - x2)\<bar> \<le> 1 / 10 ^ 6"
      unfolding rectAxis_iff by blast
    from ax(2) obtain y0 y1 y2 y3 where
      y: "coord c 0 2 = Some y0" "coord c 1 2 = Some y1" "coord c 2 2 = Some y2" "coord c 3 2 = Some y3"
         "\<bar>(y0 - y1) - (y3 - y2)\<bar> \<le> 1 / 10 ^ 6" "\<bar>(y0 - y3) - (y1 - y2)\<bar> \<le> 1 / 10 ^ 6"
      unfolding rectAxis_iff by blast
    have d1: "dist_pts (c ! 0) (c ! 1) = Some (sqrt ((x1 - x0) * (x1 - x0) + (y1 - y0) * (y1 - y0)))"
      using len x y by (intro dist_pts_coord) simp_all
    have d3: "dist_pts (c ! 0) (c ! 3) = Some (sqrt ((x3 - x0) * (x3 - x0) + (y3 - y0) * (y3 - y0)))"
      using len x y by (intro dist_pts_coord) simp_all
    from L len ax have sh: "\<bar>x0 - x1\<bar> \<le> 1 / 10 ^ 6 \<or> \<bar>x0 - x3\<bar> \<le> 1 / 10 ^ 6"
      by (auto simp: pointsShapeRectangle_def x almostEq_Some simp del: One_nat_def split: if_splits)
    from L len ax have nz: "\<not> (x0 = x1 \<and> y0 = y1) \<and> \<not> (x0 = x3 \<and> y0 = y3)"
      by (auto simp: pointsShapeRectangle_def d1 d3 simp del: One_nat_def split: if_splits)
    show "?len \<and> ?R" using len x y sh nz by blast
  next
    assume R: "?len \<and> ?R"
    then obtain x0 y0 x1 y1 x2 y2 x3 y3 where
      x: "coord c 0 1 = Some x0" "coord c 1 1 = Some x1" "coord c 2 1 = Some x2" "coord c 3 1 = Some x3"
         "\<bar>(x0 - x1) - (x3 - x2)\<bar> \<le> 1 / 10 ^ 6" "\<bar>(x0 - x3) - (x1 - x2)\<bar> \<le> 1 / 10 ^ 6"
      and y: "coord c 0 2 = Some y0" "coord c 1 2 = Some y1" "coord c 2 2 = Some y2" "coord c 3 2 = Some y3"
         "\<bar>(y0 - y1) - (y3 - y2)\<bar> \<le> 1 / 10 ^ 6" "\<bar>(y0 - y3) - (y1 - y2)\<bar> \<le> 1 / 10 ^ 6"
      and sh: "\<bar>x0 - x1\<bar> \<le> 1 / 10 ^ 6 \<or> \<bar>x0 - x3\<bar> \<le> 1 / 10 ^ 6"
      and nz: "\<not> (x0 = x1 \<and> y0 = y1)" "\<not> (x0 = x3 \<and> y0 = y3)"
      by blast
    have ax: "rectAxis c 1" "rectAxis c 2"
      unfolding rectAxis_iff using x y by blast+
    have d1: "dist_pts (c ! 0) (c ! 1) = Some (sqrt ((x1 - x0) * (x1 - x0) + (y1 - y0) * (y1 - y0)))"
      using len x y by (intro dist_pts_coord) simp_all
    have d3: "dist_pts (c ! 0) (c ! 3) = Some (sqrt ((x3 - x0) * (x3 - x0) + (y3 - y0) * (y3 - y0)))"
      using len x y by (intro dist_pts_coord) simp_all
    show ?L
      using len ax sh nz
      by (auto simp: pointsShapeRectangle_def x d1 d3 almostEq_Some simp del: One_nat_def)
  qed
qed


text \<open>
  C2 as stated asks for an exactly shared x-coordinate between two adjacent vertices. The
  quadrilateral \<open>skewQuad\<close> is accepted although none of its four pairs of adjacent
  vertices shares an x-coordinate: the code compares with the tolerance \<open>1e-6\<close>.

  By hand: on x the edges are \<open>e01 = 0 - 1e-7\<close> and \<open>e32 = 1 - (1 + 1e-7)\<close>, equal, and
  \<open>e03 = 0 - 1\<close> and \<open>e12 = 1e-7 - (1 + 1e-7)\<close>, equal; on y they are \<open>e01 = e32 = -1\<close> and
  \<open>e03 = e12 = 0\<close>; \<open>almostEq(0, 1e-7)\<close> holds at line 568; both distances of lines 574 and
  575 are positive.
\<close>

theorem pointsShapeRectangle_exact_x_counterexample:
  "pointsShapeRectangle skewQuad \<and>
   coord skewQuad 0 1 \<noteq> coord skewQuad 1 1 \<and> coord skewQuad 1 1 \<noteq> coord skewQuad 2 1 \<and>
   coord skewQuad 2 1 \<noteq> coord skewQuad 3 1 \<and> coord skewQuad 3 1 \<noteq> coord skewQuad 0 1"
  by (simp add: pointsShapeRectangle_def rectAxis_def skewQuad_def coord_def elt_def nsub_def
      almostEq_def dist_pts_def)

text \<open>The square of the specification's own test is accepted, by the characterisation.\<close>

theorem pointsShapeRectangle_iff_witness:
  "pointsShapeRectangle square10"
  using pointsShapeRectangle_iff [of square10]
  by (simp add: square10_def coord_def elt_def)





subsection \<open>Closing commands and the paper-space mapping\<close>

lemma readCmds_append:
  "readCmds p2r sz plotinfo act st (cs @ ds) =
     (case readCmds p2r sz plotinfo act st cs of
        Inl e \<Rightarrow> Inl e
      | Inr st1 \<Rightarrow> readCmds p2r sz plotinfo act st1 ds)"
  by (induction cs arbitrary: st) (auto split: sum.splits)

lemma pushTuples_keeps_cells:
  "pushTuples p2r sz plotinfo act st ts = Inr st' \<Longrightarrow> polys st \<noteq> [] \<Longrightarrow> polys st' \<noteq> []"
proof (induction ts arbitrary: st)
  case Nil
  then show ?case by simp
next
  case (Cons t ts)
  then show ?case
    by (auto simp: Let_def split: if_splits list.splits)
qed

lemma pushTuples_opens:
  assumes "pushTuples p2r sz plotinfo act st (t # ts) = Inr st'"
  shows "polys st' \<noteq> []"
proof -
  define st1 where "st1 = (case snd t of a # b # _ \<Rightarrow> st\<lparr>curX := a, curY := b\<rparr> | _ \<Rightarrow> st)"
  define st2 where "st2 = st1\<lparr>polys := butlast (polys st1) @
                              [last (polys st1) @ [mapTuple p2r sz plotinfo act t]]\<rparr>"
  from assms have "pushTuples p2r sz plotinfo act st2 ts = Inr st'"
    by (simp add: Let_def st1_def [symmetric] st2_def split: if_splits)
  moreover have "polys st2 \<noteq> []" by (simp add: st2_def)
  ultimately show ?thesis by (rule pushTuples_keeps_cells)
qed

lemma mapCoords_3:
  "mapCoords fx fy 3 [a, b] = [fx a, fy b]"
  "mapCoords fx fy 3 [a, b, c, d] = [fx a, fy b, fx c, fy d]"
  "mapCoords fx fy 3 [a, b, c, d, e, f] = [fx a, fy b, fx c, fy d, fx e, fy f]"
  by (simp_all add: numeral_3_eq_3)

lemma arcPoints_nonempty: "arcPoints cx cy rx ry \<noteq> []"
  by (simp add: arcPoints_def CIRCLE_SIDES_def)

lemma cmdNewPos_empty:
  "cmdNewPos st c = Inr (st1, []) \<Longrightarrow> st1 = st"
  by (auto simp: cmdNewPos_def Let_def arcPoints_nonempty split: if_splits list.splits)

lemma readCmd_start_inv:
  assumes "start_inv st" "readCmd p2r sz plotinfo act st c = Inr st'"
  shows "start_inv st'"
proof -
  from assms(2) obtain st1 newPos where
    n: "cmdNewPos st c = Inr (st1, newPos)" and
    p: "pushTuples p2r sz plotinfo act st1 newPos = Inr st'"
    by (auto simp: readCmd_def split: sum.splits)
  show ?thesis
  proof (cases newPos)
    case Nil
    with n p assms(1) show ?thesis by (auto dest: cmdNewPos_empty)
  next
    case (Cons t ts)
    with p have "pushTuples p2r sz plotinfo act st1 (t # ts) = Inr st'" by simp
    then have "polys st' \<noteq> []" by (rule pushTuples_opens)
    then show ?thesis by (simp add: start_inv_def)
  qed
qed

lemma readCmds_start_inv:
  "start_inv st \<Longrightarrow> readCmds p2r sz plotinfo act st cs = Inr st' \<Longrightarrow> start_inv st'"
  by (induction cs arbitrary: st) (auto split: sum.splits dest: readCmd_start_inv)

lemma start_inv0: "start_inv rstate0"
  by (simp add: start_inv_def rstate0_def)

lemma readCmd_Z:
  "readCmd p2r sz plotinfo act st (''Z'', a) =
     (if curX st \<noteq> initX st \<or> curY st \<noteq> initY st
      then (if polys st = [] then Inl TypeError
            else Inr (st\<lparr>curX := initX st, curY := initY st,
                         polys := butlast (polys st) @
                           [last (polys st) @
                            [(''Z'', [toDataX p2r sz plotinfo act (initX st),
                                      toDataY p2r sz plotinfo act (initY st)])]]\<rparr>))
      else Inr st)"
  by (simp add: readCmd_def cmdNewPos_def Let_def mapTuple_def mapCoords_3)

text \<open>
  C7. Reading a \<open>Z\<close> command after the commands \<open>cs\<close>, which left the decoder in state
  \<open>st\<close>: a closing tuple holding the (transformed) start of the sub-path is appended to the
  current cell exactly when the current point differs from the sub-path start, compared
  exactly; when they are equal the \<open>Z\<close> adds nothing to the cell.
\<close>

theorem readPaths_Z:
  assumes "readCmds p2r sz plotinfo act rstate0 cs = Inr st"
      and "parseSvgPath str = cs @ [(''Z'', a)]"
  shows "readPaths parseSvgPath p2r str sz plotinfo act =
           Inr (if curX st \<noteq> initX st \<or> curY st \<noteq> initY st
                then butlast (polys st) @
                       [last (polys st) @
                        [(''Z'', [toDataX p2r sz plotinfo act (initX st),
                                  toDataY p2r sz plotinfo act (initY st)])]]
                else polys st)"
proof -
  from assms(1) have "start_inv st"
    using start_inv0 by (rule readCmds_start_inv [rotated])
  then have ne: "curX st \<noteq> initX st \<or> curY st \<noteq> initY st \<Longrightarrow> polys st \<noteq> []"
    by (auto simp: start_inv_def split: if_splits)
  show ?thesis
    using assms ne
    by (auto simp: readPaths_def readCmds_append readCmd_Z)
qed

text \<open>
  \<open>M0,0 L1,1 Z\<close> gets the closing tuple; \<open>M0,0 L1,1 L0,0 Z\<close>, already back at its
  start, does not.
\<close>

theorem readPaths_Z_witness:
  "readPaths (\<lambda>s. pathOpen @ [(''Z'', [])]) (\<lambda>ax v. v) ''M0,0L1,1Z'' size0 None None =
     Inr [[(''M'', [0, 0]), (''L'', [1, 1]), (''Z'', [0, 0])]] \<and>
   readPaths (\<lambda>s. pathBack @ [(''Z'', [])]) (\<lambda>ax v. v) ''M0,0L1,1L0,0Z'' size0 None None =
     Inr [[(''M'', [0, 0]), (''L'', [1, 1]), (''L'', [0, 0])]]"
proof -
  have "readCmds (\<lambda>ax v. v) size0 None None rstate0 pathOpen =
          Inr \<lparr>polys = [[(''M'', [0, 0]), (''L'', [1, 1])]], curX = 1, curY = 1, initX = 0, initY = 0\<rparr>"
    by (simp add: pathOpen_def readCmd_def cmdNewPos_def rstate0_def mapTuple_def toDataX_def Let_def
        toDataY_def mapCoords_3)
  from readPaths_Z [OF this, of "\<lambda>s. pathOpen @ [(''Z'', [])]" "''M0,0L1,1Z''" "[]"]
  have a: "readPaths (\<lambda>s. pathOpen @ [(''Z'', [])]) (\<lambda>ax v. v) ''M0,0L1,1Z'' size0 None None =
     Inr [[(''M'', [0, 0]), (''L'', [1, 1]), (''Z'', [0, 0])]]"
    by (simp add: toDataX_def toDataY_def)
  have "readCmds (\<lambda>ax v. v) size0 None None rstate0 pathBack =
          Inr \<lparr>polys = [[(''M'', [0, 0]), (''L'', [1, 1]), (''L'', [0, 0])]],
               curX = 0, curY = 0, initX = 0, initY = 0\<rparr>"
    by (simp add: pathBack_def readCmd_def cmdNewPos_def rstate0_def mapTuple_def toDataX_def Let_def
        toDataY_def mapCoords_3)
  from readPaths_Z [OF this, of "\<lambda>s. pathBack @ [(''Z'', [])]" "''M0,0L1,1L0,0Z''" "[]"]
  have b: "readPaths (\<lambda>s. pathBack @ [(''Z'', [])]) (\<lambda>ax v. v) ''M0,0L1,1L0,0Z'' size0 None None =
     Inr [[(''M'', [0, 0]), (''L'', [1, 1]), (''L'', [0, 0])]]"
    by simp
  from a b show ?thesis by simp
qed

text \<open>
  C5. In a paper-referenced context (\<open>plotinfo\<close> given, the axis without the \<open>p2r\<close>
  capability) and a plot of non-zero width and height: the margin offset is subtracted
  exactly when \<open>isActiveShape\<close> is \<open>false\<close>, the result is divided by the plot width or
  height, Y is inverted (\<open>1 - y/h\<close>, or \<open>domain.y[1] - y/h\<close> with a domain), and with a
  domain X becomes \<open>domain.x[0] + x/w\<close>; every pair of a tuple, control points included,
  is transformed so.
\<close>

theorem toData_paper:
  assumes "\<forall>ax. pi_xaxis pinfo = Some ax \<longrightarrow> \<not> ax_p2r ax"
      and "\<forall>ax. pi_yaxis pinfo = Some ax \<longrightarrow> \<not> ax_p2r ax"
      and "size_w sz \<noteq> 0" and "size_h sz \<noteq> 0"
  shows "toDataX p2r sz (Some pinfo) act px =
           (case pi_domain pinfo of
              None \<Rightarrow> (if act = Some False then px - size_l sz else px) / size_w sz
            | Some d \<Rightarrow> fst (dom_x d) + (if act = Some False then px - size_l sz else px) / size_w sz)
       \<and> toDataY p2r sz (Some pinfo) act py =
           (case pi_domain pinfo of
              None \<Rightarrow> 1 - (if act = Some False then py - size_t sz else py) / size_h sz
            | Some d \<Rightarrow> snd (dom_y d) - (if act = Some False then py - size_t sz else py) / size_h sz)
       \<and> mapTuple p2r sz (Some pinfo) act (w, [px, py, qx, qy, rx, ry]) =
           (w, [toDataX p2r sz (Some pinfo) act px, toDataY p2r sz (Some pinfo) act py,
                toDataX p2r sz (Some pinfo) act qx, toDataY p2r sz (Some pinfo) act qy,
                toDataX p2r sz (Some pinfo) act rx, toDataY p2r sz (Some pinfo) act ry])"
  using assms
  by (auto simp: toDataX_def toDataY_def paperX_def paperY_def mapTuple_def Let_def
      mapCoords_3 split: option.splits)

text \<open>
  A plot of 400 by 200 pixels with margins 10 and 20 and the domain \<open>[0.5,1] x [0,0.5]\<close>.
\<close>

theorem toData_paper_witness:
  "toDataX (\<lambda>ax v. v) size1 (Some paperDomain) (Some False) 210 = 1 \<and>
   toDataY (\<lambda>ax v. v) size1 (Some paperDomain) (Some False) 120 = 0 \<and>
   toDataX (\<lambda>ax v. v) size1 (Some paperDomain) None 200 = 1"
  using toData_paper [of paperDomain size1 "\<lambda>ax v. v" "Some False" 210 120]
        toData_paper [of paperDomain size1 "\<lambda>ax v. v" None 200 0]
  by (simp add: paperDomain_def size1_def)

subsection \<open>Deleting a vertex\<close>




subsection \<open>Skipped cells and reconciliation\<close>

lemma newShapesOf_append:
  "newShapesOf n2s sty pinfo act mode om (ps @ qs) =
     (case newShapesOf n2s sty pinfo act mode om ps of
        Inl e \<Rightarrow> Inl e
      | Inr a \<Rightarrow>
          (case newShapesOf n2s sty pinfo act mode om qs of
             Inl e \<Rightarrow> Inl e
           | Inr b \<Rightarrow> Inr (a @ b)))"
  by (induction ps) (auto split: sum.splits)

text \<open>
  C10. A decoded cell of fewer than two tuples yields no shape record, whatever the
  drawing mode, style, context and flag: the loop over the cells gives the same result,
  records and errors alike, as on the polygon set without that cell, so the cells before
  and after it are processed in their order; and \<open>addNewShapes\<close>, when the outline decodes
  to a polygon set holding such a cell, returns what the remaining cells give.
\<close>

theorem newShapesOf_skips_short_cell:
  assumes "length c < 2"
  shows "newShapesOf n2s sty pinfo act mode om [c] = Inr [] \<and>
         newShapesOf n2s sty pinfo act mode om (ps @ c # qs) =
           newShapesOf n2s sty pinfo act mode om (ps @ qs) \<and>
         (do_plotinfo dragOpts = Some pinfo \<and>
          activeDragmode (do_gd dragOpts) (do_isActiveShape dragOpts) (do_dragmode dragOpts) = Inr mode \<and>
          readPaths parseSvgPath p2r d (gd_size (do_gd dragOpts)) (Some pinfo)
            (do_isActiveShape dragOpts) = Inr (ps @ c # qs) \<longrightarrow>
          addNewShapes parseSvgPath p2r n2s openMode (Some d) dragOpts =
            (case newShapesOf n2s (gd_newshape (do_gd dragOpts)) pinfo (do_isActiveShape dragOpts)
                    mode (openMode mode) (ps @ qs) of
               Inl e \<Rightarrow> Inl e
             | Inr newShapes \<Rightarrow>
                 Inr (reconcile n2s (do_gd dragOpts) (do_isActiveShape dragOpts) newShapes)))"
proof -
  have one: "newShapesOf n2s sty pinfo act mode om [c] = Inr []" for sty act om
    using assms by simp
  have skip: "newShapesOf n2s sty pinfo act mode om (ps @ c # qs) =
             newShapesOf n2s sty pinfo act mode om (ps @ qs)" for sty act om
  proof -
    have "newShapesOf n2s sty pinfo act mode om (c # qs) = newShapesOf n2s sty pinfo act mode om qs"
      using assms by simp
    then show ?thesis by (simp only: newShapesOf_append)
  qed
  have "addNewShapes parseSvgPath p2r n2s openMode (Some d) dragOpts =
            (case newShapesOf n2s (gd_newshape (do_gd dragOpts)) pinfo (do_isActiveShape dragOpts)
                    mode (openMode mode) (ps @ qs) of
               Inl e \<Rightarrow> Inl e
             | Inr newShapes \<Rightarrow>
                 Inr (reconcile n2s (do_gd dragOpts) (do_isActiveShape dragOpts) newShapes))"
    if "do_plotinfo dragOpts = Some pinfo"
      and "activeDragmode (do_gd dragOpts) (do_isActiveShape dragOpts) (do_dragmode dragOpts) = Inr mode"
      and "readPaths parseSvgPath p2r d (gd_size (do_gd dragOpts)) (Some pinfo)
            (do_isActiveShape dragOpts) = Inr (ps @ c # qs)"
    using that by (simp add: addNewShapes_def Let_def skip)
  with one skip show ?thesis by blast
qed

text \<open>A lone move-to between two segments is skipped.\<close>

theorem newShapesOf_skips_short_cell_witness:
  "newShapesOf (\<lambda>x. '''') style0 paperDomain None ''drawline'' True
     ([pathOpen] @ [(''M'', [5, 5])] # [pathOpen]) = Inr [segmentShape, segmentShape]"
proof -
  have "cellShape (\<lambda>x. '''') style0 paperDomain None ''drawline'' True pathOpen = Inr segmentShape"
    by (simp add: cellShape_def pathOpen_def style0_def paperDomain_def segmentShape_def
        axisRef_def onPaper_def cellNum_def elt_def jsRead_def)
  then have "newShapesOf (\<lambda>x. '''') style0 paperDomain None ''drawline'' True ([pathOpen] @ [pathOpen])
        = Inr [segmentShape, segmentShape]"
    by (simp add: pathOpen_def)
  with newShapesOf_skips_short_cell
         [of "[(''M'', [5, 5])]" "\<lambda>x. ''''" style0 paperDomain None "''drawline''" True
             "[pathOpen]" "[pathOpen]"]
  show ?thesis by simp
qed

lemma hasChanged_iff:
  "hasChanged b a keys \<longleftrightarrow> (\<exists>k\<in>set keys. strictNeq (getProp b k) (getProp a k))"
  by (induction keys) auto

lemma strictNeq_Num: "strictNeq (Num x) (Num y) \<longleftrightarrow> x \<noteq> y"
  by (simp add: strictNeq_def)

lemma reconcile_nth:
  assumes "isActiveShape \<noteq> None" "0 \<le> gd_activeShapeIndex g"
      and "nat (gd_activeShapeIndex g) < length (gd_shapes g)"
  shows "reconcile num2str g isActiveShape (first # others) = Some shapes \<Longrightarrow>
         shapes ! nat (gd_activeShapeIndex g) =
           snd (editActive num2str (gd_shapes g ! nat (gd_activeShapeIndex g)) first others)"
  using assms by (auto simp: reconcile_def Let_def)

lemma editActive_fst:
  assumes "ty = getProp (fs_props b) ''type''"
      and "ty = Str ''line'' \<or> ty = Str ''rect'' \<or> ty = Str ''circle'' \<or> ty = Str ''path''"
      and "keys = (if ty = Str ''path'' then [''path''] else [''x0'', ''x1'', ''y0'', ''y1''])"
      and "afterEdit = (if ty = Str ''path'' then addPaths num2str first others else first)"
  shows "fst (editActive num2str b first others) = hasChanged (fs_props b) afterEdit keys"
  using assms by (auto simp: editActive_def Let_def)

lemma editActive_unchanged:
  "\<not> fst (editActive num2str b first others) \<Longrightarrow>
   snd (editActive num2str b first others) = fs_input b"
  by (auto simp: editActive_def Let_def split: if_splits)

text \<open>
  C4. For the entry that is the active shape, of type line, rect, circle (relevant keys
  \<open>x0\<close>, \<open>x1\<close>, \<open>y0\<close>, \<open>y1\<close>) or path (relevant key \<open>path\<close>, the paths of all new shapes
  concatenated): \<open>updatedActiveShape\<close> is true exactly when some relevant key of the prior
  record and of the synthesized record differ under \<open>!==\<close>, which on numbers and on strings
  is exact inequality with no tolerance; the returned entry is the one computed by the
  edit; when every relevant key compares equal the flag is false and the entry is the
  prior \<open>_input\<close> unchanged; and an entry that differs from the prior \<open>_input\<close> had a
  differing relevant key.
\<close>

theorem reconcile_exact_comparison:
  assumes "isActiveShape \<noteq> None"
      and "0 \<le> gd_activeShapeIndex g" and "nat (gd_activeShapeIndex g) < length (gd_shapes g)"
      and "beforeEdit = gd_shapes g ! nat (gd_activeShapeIndex g)"
      and "ty = getProp (fs_props beforeEdit) ''type''"
      and "ty = Str ''line'' \<or> ty = Str ''rect'' \<or> ty = Str ''circle'' \<or> ty = Str ''path''"
      and "keys = (if ty = Str ''path'' then [''path''] else [''x0'', ''x1'', ''y0'', ''y1''])"
      and "afterEdit = (if ty = Str ''path'' then addPaths num2str first others else first)"
      and "reconcile num2str g isActiveShape (first # others) = Some shapes"
  shows "(fst (editActive num2str beforeEdit first others) \<longleftrightarrow>
            (\<exists>k\<in>set keys. strictNeq (getProp (fs_props beforeEdit) k) (getProp afterEdit k)))
       \<and> shapes ! nat (gd_activeShapeIndex g) = snd (editActive num2str beforeEdit first others)
       \<and> ((\<forall>k\<in>set keys. \<not> strictNeq (getProp (fs_props beforeEdit) k) (getProp afterEdit k)) \<longrightarrow>
            \<not> fst (editActive num2str beforeEdit first others) \<and>
            shapes ! nat (gd_activeShapeIndex g) = fs_input beforeEdit)
       \<and> (shapes ! nat (gd_activeShapeIndex g) \<noteq> fs_input beforeEdit \<longrightarrow>
            (\<exists>k\<in>set keys. strictNeq (getProp (fs_props beforeEdit) k) (getProp afterEdit k)))
       \<and> (\<forall>x y. strictNeq (Num x) (Num y) \<longleftrightarrow> x \<noteq> y)
       \<and> (\<forall>s t. strictNeq (Str s) (Str t) \<longleftrightarrow> s \<noteq> t)"
proof -
  have f: "fst (editActive num2str beforeEdit first others) \<longleftrightarrow>
            (\<exists>k\<in>set keys. strictNeq (getProp (fs_props beforeEdit) k) (getProp afterEdit k))"
    using editActive_fst [OF assms(5) assms(6) assms(7) assms(8)]
    by (simp only: hasChanged_iff)
  have n: "shapes ! nat (gd_activeShapeIndex g) = snd (editActive num2str beforeEdit first others)"
    using reconcile_nth [OF assms(1) assms(2) assms(3) assms(9)] assms(4) by simp
  have u: "\<not> fst (editActive num2str beforeEdit first others) \<Longrightarrow>
           shapes ! nat (gd_activeShapeIndex g) = fs_input beforeEdit"
    using n editActive_unchanged by simp
  show ?thesis
    using f n u by (auto simp: strictNeq_def)
qed

text \<open>
  The unchanged rectangle leaves the entry alone; a drift of \<open>1e-9\<close> in \<open>x1\<close>, far
  below the classifier's tolerance, counts as a change and is written into the entry.
\<close>

theorem reconcile_exact_comparison_witness:
  "\<not> fst (editActive (\<lambda>x. '''') rectBefore rectSame []) \<and>
   reconcile (\<lambda>x. '''') gdRect (Some False) [rectSame] = Some [fs_input rectBefore] \<and>
   fst (editActive (\<lambda>x. '''') rectBefore rectDrift []) \<and>
   reconcile (\<lambda>x. '''') gdRect (Some False) [rectDrift] =
     Some [[(''type'', Str ''rect''), (''x0'', Num 1), (''y0'', Num 2),
            (''x1'', Num (3 + 1 / 10 ^ 9)), (''y1'', Num 4), (''name'', Str ''box'')]]"
proof -
  have b: "rectBefore = gd_shapes gdRect ! nat (gd_activeShapeIndex gdRect)"
    by (simp add: gdRect_def)
  have ty: "Str ''rect'' = getProp (fs_props rectBefore) ''type''"
    by (simp add: rectBefore_def getProp_def)
  have r1: "reconcile (\<lambda>x. '''') gdRect (Some False) [rectSame] = Some [fs_input rectBefore]"
    by (simp add: reconcile_def gdRect_def editActive_def rectBefore_def rectSame_def
        getProp_def strictNeq_def Let_def)
  have r2: "reconcile (\<lambda>x. '''') gdRect (Some False) [rectDrift] =
     Some [[(''type'', Str ''rect''), (''x0'', Num 1), (''y0'', Num 2),
            (''x1'', Num (3 + 1 / 10 ^ 9)), (''y1'', Num 4), (''name'', Str ''box'')]]"
    by (simp add: reconcile_def gdRect_def editActive_def rectBefore_def rectDrift_def
        getProp_def strictNeq_def Let_def)
  have k: "[''x0'', ''x1'', ''y0'', ''y1''] =
           (if Str ''rect'' = Str ''path'' then [''path''] else [''x0'', ''x1'', ''y0'', ''y1''])"
    by simp
  have a1: "rectSame = (if Str ''rect'' = Str ''path'' then addPaths (\<lambda>x. '''') rectSame [] else rectSame)"
    by simp
  have a2: "rectDrift = (if Str ''rect'' = Str ''path'' then addPaths (\<lambda>x. '''') rectDrift [] else rectDrift)"
    by simp
  have i: "Some False \<noteq> None" "0 \<le> gd_activeShapeIndex gdRect"
    "nat (gd_activeShapeIndex gdRect) < length (gd_shapes gdRect)"
    by (simp_all add: gdRect_def)
  have t: "Str ''rect'' = Str ''line'' \<or> Str ''rect'' = Str ''rect'' \<or> Str ''rect'' = Str ''circle'' \<or>
           Str ''rect'' = Str ''path''"
    by simp
  from reconcile_exact_comparison [OF i b ty t k a1 r1]
  have "\<not> fst (editActive (\<lambda>x. '''') rectBefore rectSame [])"
    by (simp add: rectBefore_def rectSame_def getProp_def strictNeq_def)
  moreover from reconcile_exact_comparison [OF i b ty t k a2 r2]
  have "fst (editActive (\<lambda>x. '''') rectBefore rectDrift [])"
    by (simp add: rectBefore_def rectDrift_def getProp_def strictNeq_def)
  ultimately show ?thesis using r1 r2 by simp
qed

subsection \<open>Ellipse corners\<close>

lemma num_ops [simp]:
  "nadd (Some a) (Some b) = Some (a + b)"
  "nsub (Some a) (Some b) = Some (a - b)"
  "nmul (Some a) (Some b) = Some (a * b)"
  "ndiv (Some a) (Some b) = Some (a / b)"
  by (simp_all add: nadd_def nsub_def nmul_def ndiv_def)

lemma cos45_SQRT2: "cos45 * SQRT2 = 1" "sin45 * SQRT2 = 1"
  by (simp_all add: cos45_def sin45_def SQRT2_def cos_45 sin_45)

lemma ellipseOver_Some:
  "ellipseOver \<lparr>pos_x0 = Some a, pos_y0 = Some b, pos_x1 = Some c, pos_y1 = Some d\<rparr> =
     \<lparr>pos_x0 = Some (a - SQRT2 * (c - a)), pos_y0 = Some (b - SQRT2 * (d - b)),
      pos_x1 = Some (a + SQRT2 * (c - a)), pos_y1 = Some (b + SQRT2 * (d - b))\<rparr>"
  by (simp add: ellipseOver_def Let_def algebra_simps)

lemma handleEllipse_nth:
  assumes "x1 \<noteq> x0" "y1 \<noteq> y0" "i < CIRCLE_SIDES"
  shows "handleEllipse True (x0, y0) (x1, y1) ! i =
           (Some (x0 + SQRT2 * (x1 - x0) * cos (real i * 2 * pi / real CIRCLE_SIDES)),
            Some (y0 + SQRT2 * (y1 - y0) * sin (real i * 2 * pi / real CIRCLE_SIDES)))"
proof -
  have s: "SQRT2 \<noteq> 0" by (simp add: SQRT2_def)
  show ?thesis
    using assms s
    by (simp add: handleEllipse_def ellipseOver_Some Let_def falsy_def)
qed

lemma circlePos_samples:
  assumes len: "24 < length c"
      and p0: "elt (snd (c ! 0)) 0 = Some (cx + rx)" "elt (snd (c ! 0)) 1 = Some cy"
      and p4: "elt (snd (c ! 4)) 0 = Some (cx + rx * cos45)" "elt (snd (c ! 4)) 1 = Some (cy + ry * sin45)"
      and p8: "elt (snd (c ! 8)) 0 = Some cx" "elt (snd (c ! 8)) 1 = Some (cy + ry)"
      and p16: "elt (snd (c ! 16)) 0 = Some (cx - rx)" "elt (snd (c ! 16)) 1 = Some cy"
      and p24: "elt (snd (c ! 24)) 0 = Some cx" "elt (snd (c ! 24)) 1 = Some (cy - ry)"
  shows "circlePos (Some False) c =
           Inr \<lparr>pos_x0 = Some (cx + rx), pos_y0 = Some (cy + ry),
                pos_x1 = Some (cx - rx), pos_y1 = Some (cy - ry)\<rparr>"
    and "act \<noteq> Some False \<Longrightarrow> circlePos act c =
           Inr \<lparr>pos_x0 = Some (cx - rx), pos_y0 = Some (cy - ry),
                pos_x1 = Some (cx + rx), pos_y1 = Some (cy + ry)\<rparr>"
proof -
  have idx: "elt c i000 = Some (c ! 0)" "elt c i045 = Some (c ! 4)" "elt c i090 = Some (c ! 8)"
    "elt c i180 = Some (c ! 16)" "elt c i270 = Some (c ! 24)"
    using len by (auto simp: elt_def i000_def i045_def i090_def i180_def i270_def CIRCLE_SIDES_def)
  have k: "cos45 = 1 / SQRT2" "sin45 = 1 / SQRT2" and nz: "SQRT2 \<noteq> 0"
    using cos45_SQRT2 by (auto simp: field_simps SQRT2_def)
  show "circlePos (Some False) c =
           Inr \<lparr>pos_x0 = Some (cx + rx), pos_y0 = Some (cy + ry),
                pos_x1 = Some (cx - rx), pos_y1 = Some (cy - ry)\<rparr>"
    using nz
    by (simp add: circlePos_def idx p0 p8 p16 p24 ellipseOver_Some Let_def k field_simps
        del: One_nat_def)
  show "circlePos act c =
           Inr \<lparr>pos_x0 = Some (cx - rx), pos_y0 = Some (cy - ry),
                pos_x1 = Some (cx + rx), pos_y1 = Some (cy + ry)\<rparr>" if "act \<noteq> Some False"
    using that nz
    by (simp add: circlePos_def idx p0 p4 p16 ellipseOver_Some Let_def k field_simps
        del: One_nat_def)
qed

lemma trig_samples:
  "cos (real (4::nat) * 2 * pi / real CIRCLE_SIDES) = cos45"
  "sin (real (4::nat) * 2 * pi / real CIRCLE_SIDES) = sin45"
  "cos (real (8::nat) * 2 * pi / real CIRCLE_SIDES) = 0"
  "sin (real (8::nat) * 2 * pi / real CIRCLE_SIDES) = 1"
  "cos (real (16::nat) * 2 * pi / real CIRCLE_SIDES) = - 1"
  "sin (real (16::nat) * 2 * pi / real CIRCLE_SIDES) = 0"
  "cos (real (24::nat) * 2 * pi / real CIRCLE_SIDES) = 0"
  "sin (real (24::nat) * 2 * pi / real CIRCLE_SIDES) = - 1"
proof -
  have a: "real (4::nat) * 2 * pi / real CIRCLE_SIDES = pi / 4"
    "real (8::nat) * 2 * pi / real CIRCLE_SIDES = pi / 2"
    "real (16::nat) * 2 * pi / real CIRCLE_SIDES = pi"
    "real (24::nat) * 2 * pi / real CIRCLE_SIDES = 3 / 2 * pi"
    by (simp_all add: CIRCLE_SIDES_def)
  show "cos (real (4::nat) * 2 * pi / real CIRCLE_SIDES) = cos45"
    "sin (real (4::nat) * 2 * pi / real CIRCLE_SIDES) = sin45"
    by (simp_all only: a cos45_def sin45_def)
  show "cos (real (8::nat) * 2 * pi / real CIRCLE_SIDES) = 0"
    "sin (real (8::nat) * 2 * pi / real CIRCLE_SIDES) = 1"
    by (simp_all only: a cos_pi_half sin_pi_half)
  show "cos (real (16::nat) * 2 * pi / real CIRCLE_SIDES) = - 1"
    "sin (real (16::nat) * 2 * pi / real CIRCLE_SIDES) = 0"
    by (simp_all only: a cos_pi sin_pi)
  show "cos (real (24::nat) * 2 * pi / real CIRCLE_SIDES) = 0"
    "sin (real (24::nat) * 2 * pi / real CIRCLE_SIDES) = - 1"
    by (simp_all only: a cos_3over2_pi sin_3over2_pi)
qed

text \<open>
  C6 (as amended). For a non-degenerate drag from \<open>(x0,y0)\<close> to \<open>(x1,y1)\<close> and a cell
  whose first \<open>CIRCLE_SIDES\<close> tuples carry the points of \<open>handleEllipse\<close>: the corners
  derived from the cell are the bounding box of the ellipse,
  \<open>ellipseOver(x0,y0,x1,y1) = (x0 - \<surd>2 dx, y0 - \<surd>2 dy, x0 + \<surd>2 dx, y0 + \<surd>2 dy)\<close> with
  \<open>dx = x1 - x0\<close> and \<open>dy = y1 - y0\<close>, when \<open>isActiveShape\<close> is not \<open>false\<close> (the sample at
  45 degrees), and that box with its two corners exchanged when \<open>isActiveShape\<close> is
  \<open>false\<close> (the four cardinal samples).
\<close>

theorem circlePos_handleEllipse:
  assumes "x1 \<noteq> x0" and "y1 \<noteq> y0"
      and "CIRCLE_SIDES \<le> length c"
      and "\<forall>i<CIRCLE_SIDES. (elt (snd (c ! i)) 0, elt (snd (c ! i)) 1) =
                             handleEllipse True (x0, y0) (x1, y1) ! i"
  shows "(act \<noteq> Some False \<longrightarrow>
            circlePos act c =
              Inr (ellipseOver \<lparr>pos_x0 = Some x0, pos_y0 = Some y0,
                                 pos_x1 = Some x1, pos_y1 = Some y1\<rparr>))
       \<and> ellipseOver \<lparr>pos_x0 = Some x0, pos_y0 = Some y0, pos_x1 = Some x1, pos_y1 = Some y1\<rparr> =
            \<lparr>pos_x0 = Some (x0 - sqrt 2 * (x1 - x0)), pos_y0 = Some (y0 - sqrt 2 * (y1 - y0)),
             pos_x1 = Some (x0 + sqrt 2 * (x1 - x0)), pos_y1 = Some (y0 + sqrt 2 * (y1 - y0))\<rparr>
       \<and> circlePos (Some False) c =
            Inr \<lparr>pos_x0 = Some (x0 + sqrt 2 * (x1 - x0)), pos_y0 = Some (y0 + sqrt 2 * (y1 - y0)),
                 pos_x1 = Some (x0 - sqrt 2 * (x1 - x0)), pos_y1 = Some (y0 - sqrt 2 * (y1 - y0))\<rparr>"
proof -
  let ?rx = "SQRT2 * (x1 - x0)" and ?ry = "SQRT2 * (y1 - y0)"
  have pt: "elt (snd (c ! i)) 0 = Some (x0 + ?rx * cos (real i * 2 * pi / real CIRCLE_SIDES)) \<and>
            elt (snd (c ! i)) 1 = Some (y0 + ?ry * sin (real i * 2 * pi / real CIRCLE_SIDES))"
    if "i < CIRCLE_SIDES" for i
    using assms(4) that handleEllipse_nth [OF assms(1) assms(2) that] by fastforce
  have len: "24 < length c"
    using assms(3) by (simp add: CIRCLE_SIDES_def)
  have p0: "elt (snd (c ! 0)) 0 = Some (x0 + ?rx)" "elt (snd (c ! 0)) 1 = Some y0"
    using pt [of 0] by (simp_all add: CIRCLE_SIDES_def)
  have p4: "elt (snd (c ! 4)) 0 = Some (x0 + ?rx * cos45)" "elt (snd (c ! 4)) 1 = Some (y0 + ?ry * sin45)"
    using pt [of 4] by (simp_all only: trig_samples) (simp_all add: CIRCLE_SIDES_def)
  have p8: "elt (snd (c ! 8)) 0 = Some x0" "elt (snd (c ! 8)) 1 = Some (y0 + ?ry)"
    using pt [of 8] by (simp_all only: trig_samples) (simp_all add: CIRCLE_SIDES_def)
  have p16: "elt (snd (c ! 16)) 0 = Some (x0 - ?rx)" "elt (snd (c ! 16)) 1 = Some y0"
    using pt [of 16] by (simp_all only: trig_samples) (simp_all add: CIRCLE_SIDES_def)
  have p24: "elt (snd (c ! 24)) 0 = Some x0" "elt (snd (c ! 24)) 1 = Some (y0 - ?ry)"
    using pt [of 24] by (simp_all only: trig_samples) (simp_all add: CIRCLE_SIDES_def)
  note s = circlePos_samples [OF len p0 p4 p8 p16 p24]
  show ?thesis
    using s by (simp add: ellipseOver_Some SQRT2_def)
qed

lemma circleCell_pt:
  assumes "i < 32"
  shows "elt (snd (circleCell ! i)) 0 = Some (sqrt 2 * cos (real i * 2 * pi / 32))"
    and "elt (snd (circleCell ! i)) 1 = Some (sqrt 2 * sin (real i * 2 * pi / 32))"
  using assms by (simp_all add: circleCell_def nth_append elt_def del: upt_Suc)

lemma circleCell_handleEllipse:
  "\<forall>i<CIRCLE_SIDES. (elt (snd (circleCell ! i)) 0, elt (snd (circleCell ! i)) 1) =
                      handleEllipse True (0, 0) (1, 1) ! i"
proof (intro allI impI)
  fix i assume i: "i < CIRCLE_SIDES"
  then have "i < 32" by (simp add: CIRCLE_SIDES_def)
  from circleCell_pt [OF this] handleEllipse_nth [of 1 0 1 0 i] i
  show "(elt (snd (circleCell ! i)) 0, elt (snd (circleCell ! i)) 1) =
          handleEllipse True (0, 0) (1, 1) ! i"
    by (simp add: SQRT2_def CIRCLE_SIDES_def)
qed

lemma sqrt2_far: "\<not> almostEq (Some (sqrt 2)) (Some 1)" "\<not> almostEq (Some (- sqrt 2)) (Some 0)"
proof -
  have "(14 / 10) < sqrt 2"
    by (rule real_less_rsqrt) (simp add: power2_eq_square)
  then show "\<not> almostEq (Some (sqrt 2)) (Some 1)" "\<not> almostEq (Some (- sqrt 2)) (Some 0)"
    by (simp_all add: almostEq_def)
qed

text \<open>
  C6 as stated fails: for the drag from \<open>(0,0)\<close> to \<open>(1,1)\<close> the cell holds the points of
  \<open>handleEllipse\<close>, and the corners derived from it are \<open>(-\<surd>2, -\<surd>2, \<surd>2, \<surd>2)\<close> for a
  fresh draw and \<open>(\<surd>2, \<surd>2, -\<surd>2, -\<surd>2)\<close> for an edited shape, not \<open>(0, 0, 1, 1)\<close>
  within \<open>1e-6\<close>.

  By hand: in \<open>handleEllipse\<close>, \<open>ellipseOver\<close> turns the corners \<open>(0,0,1,1)\<close> into the box
  \<open>(-\<surd>2, -\<surd>2, \<surd>2, \<surd>2)\<close>, so \<open>cx = cy = 0\<close> and \<open>rx = ry = \<surd>2\<close>; the samples are
  \<open>cell[0] = (\<surd>2, 0)\<close>, \<open>cell[4] = (1, 1)\<close>, \<open>cell[8] = (0, \<surd>2)\<close>, \<open>cell[16] = (-\<surd>2, 0)\<close> and
  \<open>cell[24] = (0, -\<surd>2)\<close>. Lines 761 to 766 call \<open>ellipseOver\<close> on \<open>(0, 0, 1, 1)\<close> again;
  lines 750 to 758 compute \<open>x0 = y0 = 0\<close> and \<open>rx = ry = -\<surd>2\<close> and call it on \<open>(0, 0, -1, -1)\<close>.
\<close>

theorem toCorners_fromCorners_counterexample:
  "map (\<lambda>t. (elt (snd t) 0, elt (snd t) 1)) (take 32 circleCell) = handleEllipse True (0, 0) (1, 1) \<and>
   circlePos None circleCell =
     Inr \<lparr>pos_x0 = Some (- sqrt 2), pos_y0 = Some (- sqrt 2),
          pos_x1 = Some (sqrt 2), pos_y1 = Some (sqrt 2)\<rparr> \<and>
   circlePos (Some False) circleCell =
     Inr \<lparr>pos_x0 = Some (sqrt 2), pos_y0 = Some (sqrt 2),
          pos_x1 = Some (- sqrt 2), pos_y1 = Some (- sqrt 2)\<rparr> \<and>
   \<not> almostEq (Some (sqrt 2)) (Some 1) \<and> \<not> almostEq (Some (- sqrt 2)) (Some 0)"
proof -
  have len: "length (handleEllipse True (0, 0) (1, 1)) = 32" "length circleCell = 33"
    by (simp_all add: handleEllipse_def Let_def CIRCLE_SIDES_def circleCell_def)
  have a: "map (\<lambda>t. (elt (snd t) 0, elt (snd t) 1)) (take 32 circleCell) =
             handleEllipse True (0, 0) (1, 1)"
  proof (rule nth_equalityI)
    show "length (map (\<lambda>t. (elt (snd t) 0, elt (snd t) 1)) (take 32 circleCell)) =
          length (handleEllipse True (0, 0) (1, 1))"
      using len by simp
  next
    fix i assume "i < length (map (\<lambda>t. (elt (snd t) 0, elt (snd t) 1)) (take 32 circleCell))"
    then have i: "i < 32" using len by simp
    then show "map (\<lambda>t. (elt (snd t) 0, elt (snd t) 1)) (take 32 circleCell) ! i =
               handleEllipse True (0, 0) (1, 1) ! i"
      using circleCell_handleEllipse len by (simp add: CIRCLE_SIDES_def)
  qed
  have l: "24 < length circleCell" using len by simp
  have t: "real (4::nat) * 2 * pi / 32 = pi / 4" "real (8::nat) * 2 * pi / 32 = pi / 2"
    "real (16::nat) * 2 * pi / 32 = pi" "real (24::nat) * 2 * pi / 32 = 3 / 2 * pi"
    by simp_all
  have p0: "elt (snd (circleCell ! 0)) 0 = Some (0 + sqrt 2)" "elt (snd (circleCell ! 0)) 1 = Some 0"
    using circleCell_pt [of 0] by simp_all
  have p4: "elt (snd (circleCell ! 4)) 0 = Some (0 + sqrt 2 * cos45)"
    "elt (snd (circleCell ! 4)) 1 = Some (0 + sqrt 2 * sin45)"
    using circleCell_pt [of 4] by (simp_all only: t cos45_def sin45_def) simp_all
  have p8: "elt (snd (circleCell ! 8)) 0 = Some 0" "elt (snd (circleCell ! 8)) 1 = Some (0 + sqrt 2)"
    using circleCell_pt [of 8] by (simp_all only: t cos_pi_half sin_pi_half) simp_all
  have p16: "elt (snd (circleCell ! 16)) 0 = Some (0 - sqrt 2)" "elt (snd (circleCell ! 16)) 1 = Some 0"
    using circleCell_pt [of 16] by (simp_all only: t cos_pi sin_pi) simp_all
  have p24: "elt (snd (circleCell ! 24)) 0 = Some 0" "elt (snd (circleCell ! 24)) 1 = Some (0 - sqrt 2)"
    using circleCell_pt [of 24] by (simp_all only: t cos_3over2_pi sin_3over2_pi) simp_all
  from circlePos_samples(1) [OF l p0 p4 p8 p16 p24]
       circlePos_samples(2) [OF l p0 p4 p8 p16 p24, of None] a sqrt2_far
  show ?thesis by simp
qed

text \<open>The same cell, through the theorem: its corners are the bounding box of the ellipse.\<close>

theorem circlePos_handleEllipse_witness:
  "circlePos (Some True) circleCell =
     Inr \<lparr>pos_x0 = Some (- sqrt 2), pos_y0 = Some (- sqrt 2),
          pos_x1 = Some (sqrt 2), pos_y1 = Some (sqrt 2)\<rparr> \<and>
   circlePos (Some False) circleCell =
     Inr \<lparr>pos_x0 = Some (sqrt 2), pos_y0 = Some (sqrt 2),
          pos_x1 = Some (- sqrt 2), pos_y1 = Some (- sqrt 2)\<rparr>"
proof -
  have "CIRCLE_SIDES \<le> length circleCell"
    by (simp add: CIRCLE_SIDES_def circleCell_def)
  from circlePos_handleEllipse [OF _ _ this circleCell_handleEllipse, of "Some True"]
  show ?thesis by simp
qed

subsection \<open>Round trip of the codec\<close>

lemma toData_None [simp]:
  "toDataX p2r sz None act x = x" "toDataY p2r sz None act y = y"
  by (simp_all add: toDataX_def toDataY_def)

lemma mapCoords_id:
  "(\<And>x. fx x = x) \<Longrightarrow> (\<And>y. fy y = y) \<Longrightarrow> mapCoords fx fy n as = as"
  by (induction fx fy n as rule: mapCoords.induct) auto

lemma mapTuple_None [simp]: "mapTuple p2r sz None act t = t"
  by (simp add: mapTuple_def mapCoords_id)

lemma pushTuples_None:
  assumes "polys st \<noteq> []" and "\<forall>t\<in>set ts. 2 \<le> length (snd t)"
  shows "pushTuples p2r sz None act st ts =
           Inr (st\<lparr>polys := butlast (polys st) @ [last (polys st) @ ts],
                   curX := (if ts = [] then curX st else snd (last ts) ! 0),
                   curY := (if ts = [] then curY st else snd (last ts) ! 1)\<rparr>)"
  using assms
proof (induction ts arbitrary: st)
  case Nil
  then show ?case by simp
next
  case (Cons t ts)
  from Cons.prems(2) obtain a b r where ab: "snd t = a # b # r"
    by (cases "snd t"; cases "tl (snd t)") auto
  let ?st2 = "st\<lparr>curX := a, curY := b, polys := butlast (polys st) @ [last (polys st) @ [t]]\<rparr>"
  have step: "pushTuples p2r sz None act st (t # ts) = pushTuples p2r sz None act ?st2 ts"
    using Cons.prems(1) by (simp add: ab Let_def)
  have "pushTuples p2r sz None act ?st2 ts =
          Inr (?st2\<lparr>polys := butlast (polys ?st2) @ [last (polys ?st2) @ ts],
                   curX := (if ts = [] then curX ?st2 else snd (last ts) ! 0),
                   curY := (if ts = [] then curY ?st2 else snd (last ts) ! 1)\<rparr>)"
    using Cons.prems(2) by (intro Cons.IH) simp_all
  with step show ?case by (simp add: ab)
qed

lemma validRest_append:
  "validRest ix iy x y (ts @ us) \<longleftrightarrow>
     validRest ix iy x y ts \<and>
     validRest ix iy (fst (restEnd ix iy x y ts)) (snd (restEnd ix iy x y ts)) us"
  by (induction ts arbitrary: x y) (auto simp: Let_def)

lemma restEnd_append:
  "restEnd ix iy x y (ts @ us) =
     restEnd ix iy (fst (restEnd ix iy x y ts)) (snd (restEnd ix iy x y ts)) us"
  by (induction ts arbitrary: x y) auto

lemma restEnd_last:
  "validRest ix iy x y ts \<Longrightarrow> ts \<noteq> [] \<Longrightarrow>
   restEnd ix iy x y ts = (snd (last ts) ! 0, snd (last ts) ! 1)"
proof (induction ts arbitrary: x y)
  case Nil
  then show ?case by simp
next
  case (Cons t ts)
  show ?case
  proof (cases "ts = []")
    case True
    with Cons.prems show ?thesis by (auto simp: Let_def split: if_splits)
  next
    case False
    with Cons show ?thesis by (auto simp: Let_def split: if_splits)
  qed
qed

lemma validRest_lines:
  "\<forall>t\<in>set ts. fst t = ''L'' \<and> length (snd t) = 2 \<Longrightarrow> validRest ix iy x y ts"
  by (induction ts arbitrary: x y) (auto simp: Let_def)

lemma arcPoints_lines: "\<forall>t\<in>set (arcPoints cx cy rx ry). fst t = ''L'' \<and> length (snd t) = 2"
  by (auto simp: arcPoints_def)

text \<open>What the \<open>switch\<close> produces for a command other than a move-to.\<close>

lemma cmdNewPos_valid:
  assumes "cmdNewPos st c = Inr (st1, newPos)" and "fst c \<noteq> ''M''"
  shows "polys st1 = polys st" and "initX st1 = initX st" and "initY st1 = initY st"
    and "validRest (initX st) (initY st) (curX st) (curY st) newPos"
    and "newPos = [] \<Longrightarrow> st1 = st"
  using assms
  by (auto simp: cmdNewPos_def Let_def validRest_lines arcPoints_lines arcPoints_nonempty
      split: if_splits list.splits)

lemma cmdNewPos_M:
  assumes "cmdNewPos st c = Inr (st1, newPos)" and "fst c = ''M''"
  shows "\<exists>a b. newPos = [(''M'', [a, b])] \<and>
           st1 = st\<lparr>polys := polys st @ [[]], curX := a, curY := b, initX := a, initY := b\<rparr>"
  using assms
  by (auto simp: cmdNewPos_def Let_def split: if_splits list.splits)

lemma cmdNewPos_two:
  assumes "cmdNewPos st c = Inr (st1, newPos)"
  shows "\<forall>t\<in>set newPos. 2 \<le> length (snd t)"
  using assms
  by (auto simp: cmdNewPos_def Let_def arcPoints_def split: if_splits list.splits)

lemma readCmd_None:
  assumes "cmdNewPos st c = Inr (st1, newPos)"
  shows "readCmd p2r sz None act st c =
           (if newPos = [] then Inr st1
            else if polys st1 = [] then Inl TypeError
            else Inr (st1\<lparr>polys := butlast (polys st1) @ [last (polys st1) @ newPos],
                         curX := snd (last newPos) ! 0,
                         curY := snd (last newPos) ! 1\<rparr>))"
proof (cases "newPos = []")
  case True
  with assms show ?thesis by (simp add: readCmd_def)
next
  case ne: False
  show ?thesis
  proof (cases "polys st1 = []")
    case True
    from ne obtain t ts where "newPos = t # ts" by (cases newPos) auto
    with True assms ne show ?thesis
      by (auto simp: readCmd_def Let_def split: list.splits)
  next
    case False
    from pushTuples_None [OF False cmdNewPos_two [OF assms]] assms ne False
    show ?thesis by (simp add: readCmd_def)
  qed
qed

lemma validCell_iff:
  "validCell c \<longleftrightarrow> (\<exists>ix iy ts. c = (''M'', [ix, iy]) # ts \<and> validRest ix iy ix iy ts)"
  by (auto simp: validCell_def split: list.splits prod.splits)

lemma decodedInv_nonempty:
  assumes "decodedInv st" and "polys st \<noteq> []"
  obtains ts where "last (polys st) = (''M'', [initX st, initY st]) # ts"
    and "validRest (initX st) (initY st) (initX st) (initY st) ts"
    and "restEnd (initX st) (initY st) (initX st) (initY st) ts = (curX st, curY st)"
    and "list_all validCell (polys st)"
proof -
  from assms have all: "list_all validCell (polys st)"
    by (simp add: decodedInv_def)
  with assms(2) have v: "validCell (last (polys st))"
    by (simp add: list_all_iff)
  then obtain ix iy ts where l: "last (polys st) = (''M'', [ix, iy]) # ts"
    and r: "validRest ix iy ix iy ts"
    unfolding validCell_iff by blast
  from assms l have i: "initX st = ix" "initY st = iy" "restEnd ix iy ix iy ts = (curX st, curY st)"
    by (simp_all add: decodedInv_def)
  show ?thesis
    using that [of ts] l r i all by simp
qed

lemma decodedInv_all: "decodedInv st \<Longrightarrow> list_all validCell (polys st)"
  by (cases "polys st = []") (simp_all add: decodedInv_def)

lemma readCmd_decodedInv:
  assumes inv: "decodedInv st" and rd: "readCmd p2r sz None act st c = Inr st'"
  shows "decodedInv st'"
proof -
  from rd obtain st1 newPos where n: "cmdNewPos st c = Inr (st1, newPos)"
    by (auto simp: readCmd_def split: sum.splits)
  note r = rd [unfolded readCmd_None [OF n]]
  show ?thesis
  proof (cases "fst c = ''M''")
    case True
    from cmdNewPos_M [OF n True] obtain a b where
      np: "newPos = [(''M'', [a, b])]" and
      s1: "st1 = st\<lparr>polys := polys st @ [[]], curX := a, curY := b, initX := a, initY := b\<rparr>"
      by blast
    from r np s1 have st': "st' = st\<lparr>polys := polys st @ [[(''M'', [a, b])]],
                                     curX := a, curY := b, initX := a, initY := b\<rparr>"
      by auto
    show ?thesis
      using decodedInv_all [OF inv]
      by (simp add: st' decodedInv_def validCell_def)
  next
    case False
    note v = cmdNewPos_valid [OF n False]
    show ?thesis
    proof (cases "newPos = []")
      case True
      with r v(5) inv show ?thesis by simp
    next
      case ne: False
      with r v(1) have p: "polys st \<noteq> []" by (auto split: if_splits)
      from decodedInv_nonempty [OF inv p] obtain ts where
        l: "last (polys st) = (''M'', [initX st, initY st]) # ts" and
        vr: "validRest (initX st) (initY st) (initX st) (initY st) ts" and
        re: "restEnd (initX st) (initY st) (initX st) (initY st) ts = (curX st, curY st)" and
        all: "list_all validCell (polys st)"
        by blast
      from r ne p v(1) have st': "st' = st1\<lparr>polys := butlast (polys st) @ [last (polys st) @ newPos],
                         curX := snd (last newPos) ! 0, curY := snd (last newPos) ! 1\<rparr>"
        by auto
      have vr': "validRest (initX st) (initY st) (initX st) (initY st) (ts @ newPos)"
        using vr v(4) by (simp add: validRest_append re)
      have re': "restEnd (initX st) (initY st) (initX st) (initY st) (ts @ newPos) =
                 (snd (last newPos) ! 0, snd (last newPos) ! 1)"
        using restEnd_last [OF v(4) ne] by (simp add: restEnd_append re)
      have bl: "list_all validCell (butlast (polys st))"
        using all by (auto simp: list_all_iff dest: in_set_butlastD)
      have vc: "validCell (last (polys st) @ newPos)"
        using vr' by (simp add: l validCell_def)
      show ?thesis
        using bl vc re' v(2) v(3)
        by (simp add: st' decodedInv_def l)
    qed
  qed
qed

lemma readCmds_decodedInv:
  "decodedInv st \<Longrightarrow> readCmds p2r sz None act st cs = Inr st' \<Longrightarrow> decodedInv st'"
  by (induction cs arbitrary: st) (auto split: sum.splits dest: readCmd_decodedInv)

lemma decodedInv0: "decodedInv rstate0"
  by (simp add: decodedInv_def rstate0_def)

text \<open>Decoding the command written for one valid tuple appends that tuple.\<close>

lemma readCmd_tupleCmd:
  assumes ne: "polys st \<noteq> []"
      and v: "validRest (initX st) (initY st) (curX st) (curY st) [t]"
  shows "readCmd p2r sz None act st (tupleCmd t) =
           Inr (st\<lparr>polys := butlast (polys st) @ [last (polys st) @ [t]],
                   curX := fst (restEnd (initX st) (initY st) (curX st) (curY st) [t]),
                   curY := snd (restEnd (initX st) (initY st) (curX st) (curY st) [t])\<rparr>)"
proof -
  obtain w a where t: "t = (w, a)" by (cases t)
  consider (Z) "w = ''Z''" | (L) "w = ''L'' \<or> w = ''T''" | (Q) "w = ''Q'' \<or> w = ''S''" | (C) "w = ''C''"
    using v by (auto simp: t Let_def split: if_splits)
  then show ?thesis
  proof cases
    case Z
    with v have a: "a = [initX st, initY st]" and d: "curX st \<noteq> initX st \<or> curY st \<noteq> initY st"
      by (simp_all add: t)
    have n: "cmdNewPos st (tupleCmd t) =
               Inr (st\<lparr>curX := initX st, curY := initY st\<rparr>, [(''Z'', [initX st, initY st])])"
      using d by (simp add: t Z tupleCmd_def cmdNewPos_def)
    show ?thesis
      using ne readCmd_None [OF n, of p2r sz act] by (simp add: t Z a)
  next
    case L
    with v obtain x y where a: "a = [x, y]"
      by (cases a; cases "tl a") (auto simp: t)
    have n: "cmdNewPos st (tupleCmd t) = Inr (st\<lparr>curX := x, curY := y\<rparr>, [(w, [x, y])])"
      using L by (auto simp: t a tupleCmd_def cmdNewPos_def)
    show ?thesis
      using ne L readCmd_None [OF n, of p2r sz act] by (auto simp: t a)
  next
    case Q
    with v have "length a = 4" by (auto simp: t)
    then obtain x y x1 y1 where a: "a = [x, y, x1, y1]"
      by (auto simp: length_Suc_conv numeral_eq_Suc)
    have n: "cmdNewPos st (tupleCmd t) = Inr (st\<lparr>curX := x, curY := y\<rparr>, [(w, [x, y, x1, y1])])"
      using Q by (auto simp: t a tupleCmd_def cmdNewPos_def)
    show ?thesis
      using ne Q readCmd_None [OF n, of p2r sz act] by (auto simp: t a)
  next
    case C
    with v have "length a = 6" by (auto simp: t)
    then obtain x y x1 y1 x2 y2 where a: "a = [x, y, x1, y1, x2, y2]"
      by (auto simp: length_Suc_conv numeral_eq_Suc)
    have n: "cmdNewPos st (tupleCmd t) =
               Inr (st\<lparr>curX := x, curY := y\<rparr>, [(w, [x, y, x1, y1, x2, y2])])"
      using C by (auto simp: t a tupleCmd_def cmdNewPos_def)
    show ?thesis
      using ne C readCmd_None [OF n, of p2r sz act] by (auto simp: t a)
  qed
qed

lemma readCmds_rest:
  assumes "polys st \<noteq> []"
      and "validRest (initX st) (initY st) (curX st) (curY st) ts"
  shows "readCmds p2r sz None act st (map tupleCmd ts) =
           Inr (st\<lparr>polys := butlast (polys st) @ [last (polys st) @ ts],
                   curX := fst (restEnd (initX st) (initY st) (curX st) (curY st) ts),
                   curY := snd (restEnd (initX st) (initY st) (curX st) (curY st) ts)\<rparr>)"
  using assms
proof (induction ts arbitrary: st)
  case Nil
  then show ?case by simp
next
  case (Cons t ts)
  let ?e = "restEnd (initX st) (initY st) (curX st) (curY st) [t]"
  let ?st1 = "st\<lparr>polys := butlast (polys st) @ [last (polys st) @ [t]],
                    curX := fst ?e, curY := snd ?e\<rparr>"
  from Cons.prems(2) have v1: "validRest (initX st) (initY st) (curX st) (curY st) [t]"
    and v2: "validRest (initX st) (initY st) (fst ?e) (snd ?e) ts"
    using validRest_append [of "initX st" "initY st" "curX st" "curY st" "[t]" ts] by simp_all
  have s1: "readCmd p2r sz None act st (tupleCmd t) = Inr ?st1"
    by (rule readCmd_tupleCmd [OF Cons.prems(1) v1])
  have "readCmds p2r sz None act ?st1 (map tupleCmd ts) =
          Inr (?st1\<lparr>polys := butlast (polys ?st1) @ [last (polys ?st1) @ ts],
                   curX := fst (restEnd (initX ?st1) (initY ?st1) (curX ?st1) (curY ?st1) ts),
                   curY := snd (restEnd (initX ?st1) (initY ?st1) (curX ?st1) (curY ?st1) ts)\<rparr>)"
    using v2 by (intro Cons.IH) simp_all
  moreover have "restEnd (initX st) (initY st) (curX st) (curY st) (t # ts) =
                 restEnd (initX st) (initY st) (fst ?e) (snd ?e) ts"
    using restEnd_append [of "initX st" "initY st" "curX st" "curY st" "[t]" ts] by simp
  ultimately show ?case
    using s1 by simp
qed

lemma readCmds_cell:
  assumes "validCell c"
  shows "\<exists>st'. readCmds p2r sz None act st (map tupleCmd c) = Inr st' \<and>
               polys st' = polys st @ [c]"
proof -
  from assms obtain ix iy ts where c: "c = (''M'', [ix, iy]) # ts" and v: "validRest ix iy ix iy ts"
    unfolding validCell_iff by blast
  let ?st1 = "st\<lparr>polys := polys st @ [[(''M'', [ix, iy])]],
                    curX := ix, curY := iy, initX := ix, initY := iy\<rparr>"
  have n: "cmdNewPos st (''M'', [ix, iy]) =
             Inr (st\<lparr>polys := polys st @ [[]], curX := ix, curY := iy, initX := ix, initY := iy\<rparr>,
                  [(''M'', [ix, iy])])"
    by (simp add: cmdNewPos_def)
  have m: "readCmd p2r sz None act st (tupleCmd (''M'', [ix, iy])) = Inr ?st1"
    by (simp add: tupleCmd_def readCmd_None [OF n])
  have "readCmds p2r sz None act ?st1 (map tupleCmd ts) =
          Inr (?st1\<lparr>polys := butlast (polys ?st1) @ [last (polys ?st1) @ ts],
                   curX := fst (restEnd (initX ?st1) (initY ?st1) (curX ?st1) (curY ?st1) ts),
                   curY := snd (restEnd (initX ?st1) (initY ?st1) (curX ?st1) (curY ?st1) ts)\<rparr>)"
    using v by (intro readCmds_rest) simp_all
  with m show ?thesis by (simp add: c)
qed

lemma readCmds_pathCmds:
  "list_all validCell ps \<Longrightarrow>
   \<exists>st'. readCmds p2r sz None act st (pathCmds ps) = Inr st' \<and> polys st' = polys st @ ps"
proof (induction ps arbitrary: st)
  case Nil
  then show ?case by (simp add: pathCmds_def)
next
  case (Cons c ps)
  from Cons.prems have vc: "validCell c" and vps: "list_all validCell ps" by simp_all
  from readCmds_cell [OF vc] obtain st1 where
    s1: "readCmds p2r sz None act st (map tupleCmd c) = Inr st1" and p1: "polys st1 = polys st @ [c]"
    by blast
  from Cons.IH [OF vps] obtain st2 where
    s2: "readCmds p2r sz None act st1 (pathCmds ps) = Inr st2" and p2: "polys st2 = polys st1 @ ps"
    by blast
  have "pathCmds (c # ps) = map tupleCmd c @ pathCmds ps"
    by (simp add: pathCmds_def)
  then show ?case
    using s1 s2 p1 p2 by (simp add: readCmds_append)
qed

lemma writeTuple_tupleCmd:
  assumes "tupleShape t"
  shows "writeTuple num2str t = fst (tupleCmd t) @ commaJoin (map num2str (snd (tupleCmd t)))"
proof -
  obtain w a where t: "t = (w, a)" by (cases t)
  consider (Z) "w = ''Z''" | (Q) "w \<noteq> ''Z''" "w = ''Q'' \<or> w = ''S''" "length a = 4"
    | (C) "w \<noteq> ''Z''" "w \<noteq> ''Q''" "w \<noteq> ''S''" "w = ''C''" "length a = 6"
    | (L) "w \<noteq> ''Z''" "w \<noteq> ''Q''" "w \<noteq> ''S''" "w \<noteq> ''C''" "length a = 2"
    using assms by (auto simp: tupleShape_def t Let_def split: if_splits)
  then show ?thesis
  proof cases
    case Z
    then show ?thesis by (simp add: t writeTuple_def tupleCmd_def)
  next
    case Q
    then obtain x y x1 y1 where a: "a = [x, y, x1, y1]"
      by (auto simp: length_Suc_conv numeral_eq_Suc)
    from Q show ?thesis
      by (auto simp: t a writeTuple_def tupleCmd_def realK_def elemStr_def elt_def iQS_def)
  next
    case C
    then obtain x y x1 y1 x2 y2 where a: "a = [x, y, x1, y1, x2, y2]"
      by (auto simp: length_Suc_conv numeral_eq_Suc)
    from C show ?thesis
      by (simp add: t a writeTuple_def tupleCmd_def realK_def elemStr_def elt_def iC_def)
  next
    case L
    then obtain x y where a: "a = [x, y]"
      by (auto simp: length_Suc_conv numeral_eq_Suc)
    from L show ?thesis
      by (simp add: t a writeTuple_def tupleCmd_def realK_def elemStr_def elt_def)
  qed
qed

lemma validRest_tupleShape: "validRest ix iy x y ts \<Longrightarrow> \<forall>t\<in>set ts. tupleShape t"
proof (induction ts arbitrary: x y)
  case Nil
  then show ?case by simp
next
  case (Cons t ts)
  from Cons.prems have "tupleShape t \<and> (\<exists>x' y'. validRest ix iy x' y' ts)"
    by (auto simp: Let_def tupleShape_def split: if_splits)
  then obtain x' y' where t: "tupleShape t" and r: "validRest ix iy x' y' ts"
    by blast
  from Cons.IH [OF r] t show ?case by simp
qed

lemma validCell_tupleShape:
  assumes "validCell c"
  shows "\<forall>t\<in>set c. tupleShape t"
proof -
  from assms obtain ix iy ts where c: "c = (''M'', [ix, iy]) # ts" and v: "validRest ix iy ix iy ts"
    unfolding validCell_iff by blast
  have "tupleShape (''M'', [ix, iy])" by (simp add: tupleShape_def)
  with validRest_tupleShape [OF v] show ?thesis by (simp add: c)
qed

lemma writePaths_pathText:
  assumes "list_all validCell ps" and "ps \<noteq> []"
  shows "writePaths num2str ps = pathText num2str (pathCmds ps)"
proof -
  have cell: "concat (map (writeTuple num2str) c) =
              concat (map (\<lambda>c. fst c @ commaJoin (map num2str (snd c))) (map tupleCmd c))"
    if "validCell c" for c
    using validCell_tupleShape [OF that]
    by (induction c) (simp_all add: writeTuple_tupleCmd)
  have "concat (map (\<lambda>c. concat (map (writeTuple num2str) c)) ps) =
        concat (map (\<lambda>c. fst c @ commaJoin (map num2str (snd c))) (concat (map (map tupleCmd) ps)))"
    using assms(1) by (induction ps) (simp_all add: cell)
  with assms(2) show ?thesis
    by (simp add: writePaths_def pathText_def pathCmds_def)
qed

text \<open>
  C1 (as amended). Let \<open>P\<close> be a non-empty polygon set that \<open>readPaths\<close> decoded from some
  string without coordinate context (\<open>plotinfo\<close> absent), and let the tokenizer return, for
  the string \<open>writePaths(P)\<close>, the commands written there. Then that string is the path
  text of those commands (control points moved back before the end point, closing tuples
  written as a bare \<open>Z\<close>), and decoding it, again without coordinate context, returns
  exactly \<open>P\<close>: the same cells in the same order, the same letters and the same numbers.
\<close>

theorem readPaths_writePaths_roundtrip:
  assumes "readPaths parseSvgPath p2r str sz None act = Inr P"
      and "P \<noteq> []"
      and "parseSvgPath (writePaths num2str P) = pathCmds P"
  shows "writePaths num2str P = pathText num2str (pathCmds P) \<and>
         readPaths parseSvgPath p2r' (writePaths num2str P) sz' None act' = Inr P"
proof -
  from assms(1) obtain st where
    st: "readCmds p2r sz None act rstate0 (parseSvgPath str) = Inr st" and P: "P = polys st"
    by (auto simp: readPaths_def split: sum.splits)
  from readCmds_decodedInv [OF decodedInv0 st] have "decodedInv st" .
  then have v: "list_all validCell P"
    unfolding P by (rule decodedInv_all)
  from readCmds_pathCmds [OF v, of p2r' sz' act' rstate0] obtain st' where
    "readCmds p2r' sz' None act' rstate0 (pathCmds P) = Inr st'" and "polys st' = P"
    by (auto simp: rstate0_def)
  then have "readPaths parseSvgPath p2r' (writePaths num2str P) sz' None act' = Inr P"
    by (simp add: readPaths_def assms(3))
  with writePaths_pathText [OF v assms(2)] show ?thesis by simp
qed

text \<open>
  C1 as stated fails. In a paper-referenced context on a plot of 2 by 2 pixels, the
  polygon set \<open>[[M 2 0]]\<close> is what the decoder returns for the string written for the
  pixel polygons \<open>[[M 4 2]]\<close>; writing it and decoding it again in the same context gives
  \<open>[[M 1 1]]\<close>, off by 1. And the empty polygon set, decoded from the empty string, comes
  back from its placeholder encoding as a cell of one point.

  By hand: \<open>writePaths\<close> writes \<open>M4,2\<close>; with width and height 2 and no offset subtracted
  (\<open>isActiveShape\<close> is \<open>undefined\<close>), line 497 gives \<open>4 / 2 = 2\<close> and line 506 gives
  \<open>1 - 2 / 2 = 0\<close>. The string for \<open>[[M 2 0]]\<close> is \<open>M2,0\<close>, and the same lines give
  \<open>2 / 2 = 1\<close> and \<open>1 - 0 / 2 = 1\<close>. Line 339 writes \<open>M0,0Z\<close> for the empty set; decoding it
  opens a cell with \<open>M 0 0\<close>, and the \<open>Z\<close> adds nothing since the current point is the start
  (line 468).
\<close>

theorem readPaths_writePaths_counterexample:
  "readPaths tokensOf (\<lambda>ax v. v) (writePaths digitStr [[(''M'', [4, 2])]]) size0
     (Some paperPlain) None = Inr [[(''M'', [2, 0])]] \<and>
   readPaths tokensOf (\<lambda>ax v. v) (writePaths digitStr [[(''M'', [2, 0])]]) size0
     (Some paperPlain) None = Inr [[(''M'', [1, 1])]] \<and>
   \<not> almostEq (Some 2) (Some 1) \<and>
   readPaths tokensOf (\<lambda>ax v. v) '''' size0 None None = Inr [] \<and>
   readPaths tokensOf (\<lambda>ax v. v) (writePaths digitStr []) size0 None None = Inr [[(''M'', [0, 0])]]"
proof -
  have w: "writePaths digitStr [[(''M'', [4, 2])]] = ''M4,2''"
    "writePaths digitStr [[(''M'', [2, 0])]] = ''M2,0''"
    "writePaths digitStr [] = ''M0,0Z''"
    by (simp_all add: writePaths_def writeTuple_def realK_def elemStr_def elt_def digitStr_def)
  have t: "tokensOf ''M4,2'' = [(''M'', [4, 2])]" "tokensOf ''M2,0'' = [(''M'', [2, 0])]"
    "tokensOf ''M0,0Z'' = [(''M'', [0, 0]), (''Z'', [])]" "tokensOf '''' = []"
    by (simp_all add: tokensOf_def)
  show ?thesis
    by (simp add: w t readPaths_def readCmd_def cmdNewPos_def rstate0_def mapTuple_def
        mapCoords_3 toDataX_def toDataY_def paperX_def paperY_def paperPlain_def size0_def
        almostEq_def Let_def)
qed

text \<open>
  A closed cell with a quadratic curve: decoded from \<open>M0,0Q1,2,3,4Z\<close>, written back as
  the same string, and decoded to itself.
\<close>

theorem readPaths_writePaths_roundtrip_witness:
  "writePaths digitStr [[(''M'', [0, 0]), (''Q'', [3, 4, 1, 2]), (''Z'', [0, 0])]] = ''M0,0Q1,2,3,4Z'' \<and>
   readPaths tokensOf (\<lambda>ax v. v)
     (writePaths digitStr [[(''M'', [0, 0]), (''Q'', [3, 4, 1, 2]), (''Z'', [0, 0])]])
     size1 None (Some True) =
     Inr [[(''M'', [0, 0]), (''Q'', [3, 4, 1, 2]), (''Z'', [0, 0])]]"
proof -
  let ?P = "[[(''M'', [0, 0]), (''Q'', [3, 4, 1, 2]), (''Z'', [0::real, 0])]]"
  have d: "readPaths tokensOf (\<lambda>ax v. v) ''M0,0Q1,2,3,4Z'' size0 None None = Inr ?P"
    by (simp add: tokensOf_def readPaths_def readCmd_def cmdNewPos_def rstate0_def mapTuple_def
        mapCoords_3 toDataX_def toDataY_def Let_def)
  have w: "writePaths digitStr ?P = ''M0,0Q1,2,3,4Z''"
    by (simp add: writePaths_def writeTuple_def realK_def elemStr_def elt_def digitStr_def
        iQS_def)
  have c: "pathCmds ?P = [(''M'', [0, 0]), (''Q'', [1, 2, 3, 4]), (''Z'', [])]"
    by (simp add: pathCmds_def tupleCmd_def)
  have k: "tokensOf (writePaths digitStr ?P) = pathCmds ?P"
    by (simp add: w c tokensOf_def)
  have ne: "?P \<noteq> []" by simp
  have r: "readPaths tokensOf (\<lambda>ax v. v) (writePaths digitStr ?P) size1 None (Some True) = Inr ?P"
    using readPaths_writePaths_roundtrip [OF d ne k, of "\<lambda>ax v. v" size1 "Some True"]
    by (rule conjunct2)
  show ?thesis by (intro conjI w r)
qed

end
